theory Spec2Isabelle
  imports Main "HOL-Library.Word" "HOL-Library.Multiset"
begin

section \<open>Data model of the photo-sharing schema\<close>

text \<open>
  The tables, enums, policies and functions below are those the SQL migrations under
  \<^verbatim>\<open>supabase/migrations\<close> leave behind when run in order: where a migration replaces
  a function or drops a policy or a view, the last version stands (the view
  \<^verbatim>\<open>photos_safe\<close> is dropped by the last migration). Every table is a list of rows
  in table order. SQL \<^verbatim>\<open>NULL\<close> is \<open>None\<close>; a column declared \<^verbatim>\<open>NOT NULL\<close> has a
  plain type. A \<^verbatim>\<open>uuid\<close> is a 128-bit word, a \<^verbatim>\<open>timestamptz\<close> is the number of
  microseconds since the epoch, a \<^verbatim>\<open>date\<close> is a day number. Privileges
  (\<^verbatim>\<open>GRANT\<close>, \<^verbatim>\<open>REVOKE\<close>) are left out: every caller may run every function.
  The functions and the tables have one owner, the role that runs the migrations, so a
  \<^verbatim>\<open>SECURITY DEFINER\<close> function reads and writes the tables past their policies.
\<close>

type_synonym uuid = "128 word"
type_synonym timestamptz = int
type_synonym date = int

text \<open>\<^verbatim>\<open>CREATE TYPE user_role AS ENUM ('admin', 'editor', 'viewer')\<close> and
  \<^verbatim>\<open>CREATE TYPE event_visibility AS ENUM ('public', 'private', 'hybrid')\<close>.\<close>

datatype user_role = Admin | Editor | Viewer

datatype event_visibility = Public | Private | Hybrid

text \<open>
  \<^verbatim>\<open>jsonb\<close> values. \<^verbatim>\<open>jsonb_build_object\<close> stores a uuid and a timestamp as the
  JSON string of their text form; they are kept typed here (\<open>JUuid\<close>, \<open>JTimestamp\<close>)
  instead of being rendered.
\<close>

datatype jsonb =
    JNull
  | JBool bool
  | JNumber int
  | JString string
  | JUuid uuid
  | JTimestamp timestamptz
  | JArray "jsonb list"
  | JObject "(string \<times> jsonb) list"

record profile =
  p_id :: uuid
  p_user_id :: uuid
  p_full_name :: "string option"
  p_email :: "string option"
  p_role :: user_role
  p_status :: "string option"
  p_created_at :: timestamptz
  p_updated_at :: timestamptz

record event =
  e_id :: uuid
  e_name :: string
  e_description :: "string option"
  e_start_date :: date
  e_end_date :: "date option"
  e_visibility :: "event_visibility option"
  e_created_by :: uuid
  e_created_at :: timestamptz
  e_updated_at :: timestamptz

record photo =
  ph_id :: uuid
  ph_event_id :: uuid
  ph_file_name :: string
  ph_file_path :: string
  ph_file_size :: "int option"
  ph_mime_type :: "string option"
  ph_faces_detected :: "int option"
  ph_face_data :: "jsonb option"
  ph_uploaded_by :: uuid
  ph_created_at :: timestamptz

text \<open>\<^verbatim>\<open>confidence_score DECIMAL(5,2)\<close> is held in hundredths.\<close>

record face_match =
  fm_id :: uuid
  fm_user_id :: uuid
  fm_photo_id :: uuid
  fm_confidence_score :: "int option"
  fm_face_scan_data :: "jsonb option"
  fm_matched_at :: timestamptz

text \<open>
  The column \<^verbatim>\<open>activity_logs.activity_type\<close> is declared
  \<^verbatim>\<open>activity_type activity_type NOT NULL\<close>: its values are labels of the enum
  \<^verbatim>\<open>activity_type\<close>. Which labels the enum has is catalog state of the database
  (\<open>activity_type_labels\<close> below), and a text literal becomes a value of the enum only
  through the enum's input function (\<open>enum_in\<close> below).
\<close>

record activity_log =
  al_id :: uuid
  al_user_id :: "uuid option"
  al_activity_type :: string
  al_description :: string
  al_metadata :: "jsonb option"
  al_created_at :: timestamptz

text \<open>
  Besides the five tables, the state holds what the statements look up outside them:
  the ids of \<^verbatim>\<open>auth.users\<close>, which the foreign keys
  \<^verbatim>\<open>REFERENCES auth.users(id)\<close> point to; the labels of the enum
  \<^verbatim>\<open>activity_type\<close>; and the names of the functions of schema \<^verbatim>\<open>public\<close>,
  where an unqualified call inside a function with \<^verbatim>\<open>SET search_path = public\<close>
  is resolved (the built-in functions of \<^verbatim>\<open>pg_catalog\<close> always resolve).
\<close>

record database =
  auth_users :: "uuid list"
  profiles :: "profile list"
  events :: "event list"
  photos :: "photo list"
  face_matches :: "face_match list"
  activity_logs :: "activity_log list"
  activity_type_labels :: "string list"
  public_functions :: "string list"

text \<open>
  The labels of \<^verbatim>\<open>CREATE TYPE activity_type AS ENUM (...)\<close> in the first migration.
  No migration adds a label later.
\<close>

definition activity_type_enum :: "string list" where
  "activity_type_enum =
     [''login'', ''logout'', ''event_created'', ''event_updated'', ''photo_uploaded'',
      ''face_scanned'', ''user_role_changed'', ''user_created'', ''user_deleted'']"

text \<open>
  The functions the migrations create in schema \<^verbatim>\<open>public\<close>. No migration creates
  an extension; \<^verbatim>\<open>digest\<close> of pgcrypto is not among them.
\<close>

definition migrated_functions :: "string list" where
  "migrated_functions =
     [''get_user_role'', ''has_role'', ''is_admin_or_editor'', ''update_updated_at_column'',
      ''handle_new_user'', ''get_photo_with_secure_face_data'', ''enable_rls_on_view'',
      ''get_safe_photos'', ''can_access_face_match'', ''get_user_face_matches'',
      ''get_biometric_scan_data'']"

text \<open>
  What a request brings from outside the schema: \<^verbatim>\<open>auth.uid()\<close> (NULL for a caller
  with no identity), \<^verbatim>\<open>now()\<close>, the values of \<^verbatim>\<open>gen_random_uuid()\<close> (the one
  drawn for a row stored at position \<open>n\<close> of its table is \<open>gen_random_uuid s n\<close>), and
  the value \<^verbatim>\<open>encode(digest(inet_client_addr()::text, 'sha256'), 'hex')\<close> has when
  \<^verbatim>\<open>digest\<close> resolves.
\<close>

record session =
  auth_uid :: "uuid option"
  now :: timestamptz
  gen_random_uuid :: "nat \<Rightarrow> uuid"
  ip_hash :: jsonb

text \<open>
  The errors that abort a statement: \<^verbatim>\<open>22P02\<close> invalid input value for an enum
  (the label), \<^verbatim>\<open>42883\<close> undefined function (its name), \<^verbatim>\<open>42501\<close> new row
  violates the row-level security policy (the table), \<^verbatim>\<open>23505\<close> unique violation
  and \<^verbatim>\<open>23503\<close> foreign key violation (the constraint), \<^verbatim>\<open>22003\<close> numeric
  value out of range (the column).
\<close>

datatype error =
    Invalid_enum_input string
  | Undefined_function string
  | Rls_violation string
  | Unique_violation string
  | Foreign_key_violation string
  | Numeric_value_out_of_range string

section \<open>SQL three-valued logic\<close>

type_synonym sql_bool = "bool option"

definition sql_eq :: "'a option \<Rightarrow> 'a option \<Rightarrow> sql_bool" where
  "sql_eq a b = (case (a, b) of (Some x, Some y) \<Rightarrow> Some (x = y) | _ \<Rightarrow> None)"

definition sql_or :: "sql_bool \<Rightarrow> sql_bool \<Rightarrow> sql_bool" where
  "sql_or a b =
     (if a = Some True \<or> b = Some True then Some True
      else if a = Some False \<and> b = Some False then Some False
      else None)"

definition sql_and :: "sql_bool \<Rightarrow> sql_bool \<Rightarrow> sql_bool" where
  "sql_and a b =
     (if a = Some False \<or> b = Some False then Some False
      else if a = Some True \<and> b = Some True then Some True
      else None)"

text \<open>A \<^verbatim>\<open>WHERE\<close>, \<^verbatim>\<open>USING\<close>, \<^verbatim>\<open>WITH CHECK\<close> or \<^verbatim>\<open>CASE WHEN\<close> condition
  holds only when it is true: false and NULL both fail.\<close>

definition is_true :: "sql_bool \<Rightarrow> bool" where
  "is_true b = (b = Some True)"

definition is_not_null :: "'a option \<Rightarrow> sql_bool" where
  "is_not_null a = Some (a \<noteq> None)"

section \<open>Identity and role resolver\<close>

text \<open>\<^verbatim>\<open>SELECT role FROM public.profiles WHERE profiles.user_id = $1\<close>: the role of the
  first row found, NULL when there is none.\<close>

definition get_user_role :: "database \<Rightarrow> uuid option \<Rightarrow> user_role option" where
  "get_user_role db user_id =
     (case filter (\<lambda>p. is_true (sql_eq (Some (p_user_id p)) user_id)) (profiles db) of
        [] \<Rightarrow> None
      | p # _ \<Rightarrow> Some (p_role p))"

text \<open>\<^verbatim>\<open>SELECT EXISTS (SELECT 1 FROM public.profiles WHERE user_id = _user_id AND role = _role)\<close>.
  Every call in the migrations passes a literal role.\<close>

definition has_role :: "database \<Rightarrow> uuid option \<Rightarrow> user_role \<Rightarrow> bool" where
  "has_role db user_id role =
     list_ex (\<lambda>p. is_true (sql_and (sql_eq (Some (p_user_id p)) user_id)
                                     (Some (p_role p = role))))
       (profiles db)"

text \<open>\<^verbatim>\<open>... WHERE user_id = _user_id AND role IN ('admin', 'editor')\<close>.\<close>

definition is_admin_or_editor :: "database \<Rightarrow> uuid option \<Rightarrow> bool" where
  "is_admin_or_editor db user_id =
     list_ex (\<lambda>p. is_true (sql_and (sql_eq (Some (p_user_id p)) user_id)
                                     (Some (p_role p = Admin \<or> p_role p = Editor))))
       (profiles db)"

section \<open>Row-level security of events\<close>

text \<open>\<^verbatim>\<open>FOR SELECT USING (visibility = 'public' OR auth.uid() IS NOT NULL)\<close>.\<close>

definition events_select_policy :: "session \<Rightarrow> database \<Rightarrow> event \<Rightarrow> sql_bool" where
  "events_select_policy s db e =
     sql_or (sql_eq (e_visibility e) (Some Public)) (is_not_null (auth_uid s))"

definition select_events :: "session \<Rightarrow> database \<Rightarrow> event list" where
  "select_events s db = filter (\<lambda>e. is_true (events_select_policy s db e)) (events db)"

text \<open>\<^verbatim>\<open>FOR INSERT WITH CHECK (public.is_admin_or_editor(auth.uid()))\<close>.\<close>

definition events_insert_check :: "session \<Rightarrow> database \<Rightarrow> event \<Rightarrow> sql_bool" where
  "events_insert_check s db new_row = Some (is_admin_or_editor db (auth_uid s))"

text \<open>
  \<^verbatim>\<open>INSERT INTO events\<close> of one row, every column given. The policy is checked
  before the constraints; then the row meets the primary key (\<^verbatim>\<open>id\<close>) when it
  enters the index, and the foreign key \<^verbatim>\<open>created_by REFERENCES auth.users(id)\<close>
  when the statement ends. The first check that fails aborts the statement.
\<close>

definition insert_event :: "session \<Rightarrow> database \<Rightarrow> event \<Rightarrow> error + database" where
  "insert_event s db new_row =
     (if \<not> is_true (events_insert_check s db new_row) then Inl (Rls_violation ''events'')
      else if e_id new_row \<in> set (map e_id (events db)) then Inl (Unique_violation ''events_pkey'')
      else if e_created_by new_row \<notin> set (auth_users db)
        then Inl (Foreign_key_violation ''events_created_by_fkey'')
      else Inr (db\<lparr>events := events db @ [new_row]\<rparr>))"

section \<open>Row-level security of photos and the photo read paths\<close>

text \<open>
  The \<^verbatim>\<open>SELECT\<close> policy left on \<^verbatim>\<open>photos\<close> by the migrations,
  "Secure photo access with biometric protection":
  \<^verbatim>\<open>USING (EXISTS (SELECT 1 FROM events WHERE events.id = photos.event_id
         AND (events.visibility = 'public' OR auth.uid() IS NOT NULL)))\<close>.
  The sub-select reads \<^verbatim>\<open>events\<close> as the caller, under the policy of that table.
\<close>

definition photos_select_policy :: "session \<Rightarrow> database \<Rightarrow> photo \<Rightarrow> sql_bool" where
  "photos_select_policy s db ph =
     Some (list_ex
       (\<lambda>e. is_true (sql_and (Some (e_id e = ph_event_id ph))
                        (sql_or (sql_eq (e_visibility e) (Some Public))
                                (is_not_null (auth_uid s)))))
       (select_events s db))"

text \<open>Direct table access, \<^verbatim>\<open>SELECT * FROM photos\<close>: a policy admits or drops a
  row; the row it admits is returned with every column as stored.\<close>

definition select_photos :: "session \<Rightarrow> database \<Rightarrow> photo list" where
  "select_photos s db = filter (\<lambda>ph. is_true (photos_select_policy s db ph)) (photos db)"

text \<open>
  \<^verbatim>\<open>get_photo_with_secure_face_data(photo_row public.photos)\<close>: the row with
  \<^verbatim>\<open>CASE WHEN has_role(auth.uid(), 'admin') OR photo_row.uploaded_by = auth.uid()
       THEN photo_row.face_data ELSE NULL END as face_data\<close>.
\<close>

definition get_photo_with_secure_face_data :: "session \<Rightarrow> database \<Rightarrow> photo \<Rightarrow> photo list" where
  "get_photo_with_secure_face_data s db photo_row =
     [photo_row\<lparr>ph_face_data :=
        (if is_true (sql_or (Some (has_role db (auth_uid s) Admin))
                            (sql_eq (Some (ph_uploaded_by photo_row)) (auth_uid s)))
         then ph_face_data photo_row
         else None)\<rparr>]"

text \<open>The row type of \<^verbatim>\<open>get_safe_photos\<close>: the columns of \<^verbatim>\<open>photos\<close> but
  \<^verbatim>\<open>face_data\<close>.\<close>

record safe_photo =
  sp_id :: uuid
  sp_event_id :: uuid
  sp_file_name :: string
  sp_file_path :: string
  sp_mime_type :: "string option"
  sp_file_size :: "int option"
  sp_uploaded_by :: uuid
  sp_created_at :: timestamptz
  sp_faces_detected :: "int option"

definition safe_columns :: "photo \<Rightarrow> safe_photo" where
  "safe_columns p =
     \<lparr>sp_id = ph_id p, sp_event_id = ph_event_id p, sp_file_name = ph_file_name p,
      sp_file_path = ph_file_path p, sp_mime_type = ph_mime_type p,
      sp_file_size = ph_file_size p, sp_uploaded_by = ph_uploaded_by p,
      sp_created_at = ph_created_at p, sp_faces_detected = ph_faces_detected p\<rparr>"

text \<open>
  \<^verbatim>\<open>get_safe_photos(event_id_filter uuid DEFAULT NULL)\<close>, \<^verbatim>\<open>SECURITY DEFINER\<close> (it
  reads the tables as their owner, past row-level security):
  \<^verbatim>\<open>FROM public.photos p JOIN public.events e ON e.id = p.event_id
  WHERE (e.visibility = 'public' OR auth.uid() IS NOT NULL)
    AND (event_id_filter IS NULL OR p.event_id = event_id_filter)
  ORDER BY p.created_at DESC\<close>.
  The order of rows with equal \<^verbatim>\<open>created_at\<close> is not fixed by SQL; the stable sort
  keeps them in table order.
\<close>

definition get_safe_photos :: "session \<Rightarrow> database \<Rightarrow> uuid option \<Rightarrow> safe_photo list" where
  "get_safe_photos s db event_id_filter =
     sort_key (\<lambda>r. - sp_created_at r)
       [safe_columns p.
          p \<leftarrow> photos db, e \<leftarrow> events db, e_id e = ph_event_id p,
          is_true (sql_and
            (sql_or (sql_eq (e_visibility e) (Some Public)) (is_not_null (auth_uid s)))
            (sql_or (Some (event_id_filter = None))
                    (sql_eq (Some (ph_event_id p)) event_id_filter)))]"

text \<open>\<^verbatim>\<open>FOR INSERT WITH CHECK (public.is_admin_or_editor(auth.uid()))\<close> on photos.\<close>

definition photos_insert_check :: "session \<Rightarrow> database \<Rightarrow> photo \<Rightarrow> sql_bool" where
  "photos_insert_check s db new_row = Some (is_admin_or_editor db (auth_uid s))"

text \<open>The values a \<^verbatim>\<open>BIGINT\<close> and an \<^verbatim>\<open>INTEGER\<close> column take; NULL is allowed in
  both columns of photos.\<close>

definition bigint_ok :: "int option \<Rightarrow> bool" where
  "bigint_ok v = (case v of None \<Rightarrow> True | Some n \<Rightarrow> - (2 ^ 63) \<le> n \<and> n < 2 ^ 63)"

definition integer_ok :: "int option \<Rightarrow> bool" where
  "integer_ok v = (case v of None \<Rightarrow> True | Some n \<Rightarrow> - (2 ^ 31) \<le> n \<and> n < 2 ^ 31)"

text \<open>
  \<^verbatim>\<open>INSERT INTO photos\<close> of one row, every column given. A number that does not fit
  \<^verbatim>\<open>file_size BIGINT\<close> or \<^verbatim>\<open>faces_detected INTEGER\<close> is refused when the value is
  read, before any check of the row. Then the policy; then the primary key; then the
  foreign keys \<^verbatim>\<open>event_id REFERENCES public.events(id)\<close> and
  \<^verbatim>\<open>uploaded_by REFERENCES auth.users(id)\<close>, which read the referenced tables past
  their policies.
\<close>

definition insert_photo :: "session \<Rightarrow> database \<Rightarrow> photo \<Rightarrow> error + database" where
  "insert_photo s db new_row =
     (if \<not> bigint_ok (ph_file_size new_row) then Inl (Numeric_value_out_of_range ''file_size'')
      else if \<not> integer_ok (ph_faces_detected new_row)
        then Inl (Numeric_value_out_of_range ''faces_detected'')
      else if \<not> is_true (photos_insert_check s db new_row) then Inl (Rls_violation ''photos'')
      else if ph_id new_row \<in> set (map ph_id (photos db)) then Inl (Unique_violation ''photos_pkey'')
      else if ph_event_id new_row \<notin> set (map e_id (events db))
        then Inl (Foreign_key_violation ''photos_event_id_fkey'')
      else if ph_uploaded_by new_row \<notin> set (auth_users db)
        then Inl (Foreign_key_violation ''photos_uploaded_by_fkey'')
      else Inr (db\<lparr>photos := photos db @ [new_row]\<rparr>))"

section \<open>Row-level security of profiles\<close>

text \<open>
  The two \<^verbatim>\<open>UPDATE\<close> policies of \<^verbatim>\<open>profiles\<close>,
  \<^verbatim>\<open>USING (auth.uid() = user_id)\<close> and \<^verbatim>\<open>USING (public.has_role(auth.uid(), 'admin'))\<close>.
  Permissive policies of one command are joined by OR. Neither has a
  \<^verbatim>\<open>WITH CHECK\<close>, so its \<^verbatim>\<open>USING\<close> condition is also the check of the new row.
  (The two \<^verbatim>\<open>SELECT\<close> policies of the table have the same two conditions.)
\<close>

definition profiles_update_using :: "session \<Rightarrow> database \<Rightarrow> profile \<Rightarrow> sql_bool" where
  "profiles_update_using s db r =
     sql_or (sql_eq (auth_uid s) (Some (p_user_id r)))
            (Some (has_role db (auth_uid s) Admin))"

definition profiles_update_check :: "session \<Rightarrow> database \<Rightarrow> profile \<Rightarrow> sql_bool" where
  "profiles_update_check s db new_row = profiles_update_using s db new_row"

text \<open>The trigger \<^verbatim>\<open>update_profiles_updated_at BEFORE UPDATE\<close>:
  \<^verbatim>\<open>NEW.updated_at = now()\<close>.\<close>

definition update_updated_at_column :: "session \<Rightarrow> profile \<Rightarrow> profile" where
  "update_updated_at_column s new_row = new_row\<lparr>p_updated_at := now s\<rparr>"

text \<open>
  \<^verbatim>\<open>UPDATE profiles SET ... WHERE ...\<close> under the policies: a row the \<^verbatim>\<open>USING\<close>
  condition does not admit is left as it is, without an error; a new row that fails the
  check aborts the statement. The policies read the table as it was when the statement
  began (\<open>db\<close>).
\<close>

fun update_rows ::
  "session \<Rightarrow> database \<Rightarrow> (profile \<Rightarrow> bool) \<Rightarrow> (profile \<Rightarrow> profile) \<Rightarrow> profile list
     \<Rightarrow> error + profile list" where
  "update_rows s db wh st [] = Inr []"
| "update_rows s db wh st (r # rs) =
     (if wh r \<and> is_true (profiles_update_using s db r)
      then (let new_row = update_updated_at_column s (st r)
            in if is_true (profiles_update_check s db new_row)
               then (case update_rows s db wh st rs of
                       Inl e \<Rightarrow> Inl e
                     | Inr rs' \<Rightarrow> Inr (new_row # rs'))
               else Inl (Rls_violation ''profiles''))
      else (case update_rows s db wh st rs of
              Inl e \<Rightarrow> Inl e
            | Inr rs' \<Rightarrow> Inr (r # rs')))"

definition update_profiles ::
  "session \<Rightarrow> database \<Rightarrow> (profile \<Rightarrow> bool) \<Rightarrow> (profile \<Rightarrow> profile) \<Rightarrow> error + database" where
  "update_profiles s db wh st =
     (case update_rows s db wh st (profiles db) of
        Inl e \<Rightarrow> Inl e
      | Inr rs \<Rightarrow> Inr (db\<lparr>profiles := rs\<rparr>))"

text \<open>\<open>updateUserRole\<close> of the user-management component:
  \<^verbatim>\<open>supabase.from('profiles').update({ role: newRole }).eq('user_id', userId)\<close>.\<close>

definition updateUserRole :: "session \<Rightarrow> database \<Rightarrow> uuid \<Rightarrow> user_role \<Rightarrow> error + database" where
  "updateUserRole s db userId newRole =
     update_profiles s db (\<lambda>r. p_user_id r = userId) (\<lambda>r. r\<lparr>p_role := newRole\<rparr>)"

section \<open>Biometric access control\<close>

text \<open>
  A text literal written where the enum \<^verbatim>\<open>activity_type\<close> is expected is read by
  the enum's input function: a label the enum does not have is refused with
  \<^verbatim>\<open>invalid input value for enum activity_type\<close>, and the statement does not run.
\<close>

definition enum_in :: "database \<Rightarrow> string \<Rightarrow> error + string" where
  "enum_in db label =
     (if label \<in> set (activity_type_labels db) then Inr label
      else Inl (Invalid_enum_input label))"

text \<open>
  \<^verbatim>\<open>INSERT INTO public.activity_logs (user_id, activity_type, description, metadata)
  VALUES (...)\<close>; \<^verbatim>\<open>id\<close> and \<^verbatim>\<open>created_at\<close> take their defaults
  \<^verbatim>\<open>gen_random_uuid()\<close> and \<^verbatim>\<open>now()\<close>.
\<close>

definition new_activity_log ::
  "session \<Rightarrow> database \<Rightarrow> uuid option \<Rightarrow> string \<Rightarrow> string \<Rightarrow> jsonb option
     \<Rightarrow> activity_log" where
  "new_activity_log s db user_id label description metadata =
     \<lparr>al_id = gen_random_uuid s (length (activity_logs db)),
      al_user_id = user_id,
      al_activity_type = label,
      al_description = description,
      al_metadata = metadata,
      al_created_at = now s\<rparr>"

definition insert_activity_log ::
  "session \<Rightarrow> database \<Rightarrow> uuid option \<Rightarrow> string \<Rightarrow> string \<Rightarrow> jsonb option
     \<Rightarrow> error + database" where
  "insert_activity_log s db user_id activity_type description metadata =
     (case enum_in db activity_type of
        Inl e \<Rightarrow> Inl e
      | Inr label \<Rightarrow>
          Inr (db\<lparr>activity_logs := activity_logs db @
                 [new_activity_log s db user_id label description metadata]\<rparr>))"

definition interval_1_minute :: int where
  "interval_1_minute = 60 * 1000000"

text \<open>
  \<^verbatim>\<open>SELECT EXISTS (SELECT 1 FROM public.activity_logs
    WHERE user_id = current_user_id AND activity_type = 'biometric_access_attempt'
      AND created_at > now() - interval '1 minute'
    GROUP BY user_id HAVING COUNT(*) > 10) INTO rate_limit_exceeded\<close>.
\<close>

definition biometric_access_attempts :: "session \<Rightarrow> database \<Rightarrow> uuid \<Rightarrow> string \<Rightarrow> activity_log list" where
  "biometric_access_attempts s db current_user_id label =
     filter (\<lambda>l. is_true (sql_eq (al_user_id l) (Some current_user_id))
                \<and> al_activity_type l = label
                \<and> al_created_at l > now s - interval_1_minute)
       (activity_logs db)"

definition rate_limit_exceeded :: "session \<Rightarrow> database \<Rightarrow> uuid \<Rightarrow> error + bool" where
  "rate_limit_exceeded s db current_user_id =
     (case enum_in db ''biometric_access_attempt'' of
        Inl e \<Rightarrow> Inl e
      | Inr label \<Rightarrow>
          Inr (length (biometric_access_attempts s db current_user_id label) > 10))"

text \<open>\<^verbatim>\<open>SELECT EXISTS (SELECT 1 FROM public.face_matches
    WHERE id = match_id AND user_id = match_user_id) INTO is_valid_match\<close>.\<close>

definition is_valid_match :: "database \<Rightarrow> uuid option \<Rightarrow> uuid option \<Rightarrow> bool" where
  "is_valid_match db match_user_id match_id =
     list_ex (\<lambda>fm. is_true (sql_and (sql_eq (Some (fm_id fm)) match_id)
                                      (sql_eq (Some (fm_user_id fm)) match_user_id)))
       (face_matches db)"

text \<open>
  \<^verbatim>\<open>encode(digest(inet_client_addr()::text, 'sha256'), 'hex')\<close> in the statement that
  logs an access attempt. The function is declared \<^verbatim>\<open>SET search_path = public\<close> and
  calls \<^verbatim>\<open>digest\<close> unqualified, so the call resolves only when schema
  \<^verbatim>\<open>public\<close> has a function of that name; \<^verbatim>\<open>encode\<close> and
  \<^verbatim>\<open>inet_client_addr\<close> are built in. A call that does not resolve aborts the
  statement when it is analysed, before the values are cast to the column types.
\<close>

definition client_ip_hash :: "session \<Rightarrow> database \<Rightarrow> error + jsonb" where
  "client_ip_hash s db =
     (if ''digest'' \<in> set (public_functions db) then Inr (ip_hash s)
      else Inl (Undefined_function ''digest''))"

text \<open>How \<^verbatim>\<open>jsonb_build_object\<close> stores a uuid and a boolean that may be NULL.\<close>

definition uuid_to_jsonb :: "uuid option \<Rightarrow> jsonb" where
  "uuid_to_jsonb u = (case u of None \<Rightarrow> JNull | Some x \<Rightarrow> JUuid x)"

definition bool_to_jsonb :: "sql_bool \<Rightarrow> jsonb" where
  "bool_to_jsonb b = (case b of None \<Rightarrow> JNull | Some x \<Rightarrow> JBool x)"

text \<open>
  \<^verbatim>\<open>can_access_face_match(match_user_id uuid, match_id uuid)\<close> as the last migration
  of it leaves it (\<^verbatim>\<open>LANGUAGE plpgsql SECURITY DEFINER\<close>, so its statements run
  past row-level security). Either argument may be NULL. The result is the returned
  boolean with the database after the call, or the error that aborts the call.
\<close>

definition can_access_face_match ::
  "session \<Rightarrow> database \<Rightarrow> uuid option \<Rightarrow> uuid option \<Rightarrow> error + (sql_bool \<times> database)" where
  "can_access_face_match s db match_user_id match_id =
     (case auth_uid s of
        None \<Rightarrow>
          (case insert_activity_log s db None ''unauthorized_biometric_access''
                  ''Attempted unauthorized access to facial recognition data''
                  (Some (JObject
                     [(''target_user_id'', uuid_to_jsonb match_user_id),
                      (''face_match_id'', uuid_to_jsonb match_id),
                      (''timestamp'', JTimestamp (now s)),
                      (''blocked_reason'', JString ''no_authentication'')])) of
             Inl e \<Rightarrow> Inl e
           | Inr db' \<Rightarrow> Inr (Some False, db'))
      | Some current_user_id \<Rightarrow>
          (case rate_limit_exceeded s db current_user_id of
             Inl e \<Rightarrow> Inl e
           | Inr exceeded \<Rightarrow>
               if exceeded then
                 (case insert_activity_log s db (Some current_user_id)
                         ''biometric_access_rate_limited''
                         ''Rate limit exceeded for biometric data access''
                         (Some (JObject
                            [(''target_user_id'', uuid_to_jsonb match_user_id),
                             (''face_match_id'', uuid_to_jsonb match_id),
                             (''timestamp'', JTimestamp (now s))])) of
                    Inl e \<Rightarrow> Inl e
                  | Inr db' \<Rightarrow> Inr (Some False, db'))
               else if \<not> is_valid_match db match_user_id match_id then
                 (case insert_activity_log s db (Some current_user_id)
                         ''invalid_biometric_access''
                         ''Attempted access to invalid or non-existent face match''
                         (Some (JObject
                            [(''target_user_id'', uuid_to_jsonb match_user_id),
                             (''face_match_id'', uuid_to_jsonb match_id),
                             (''timestamp'', JTimestamp (now s))])) of
                    Inl e \<Rightarrow> Inl e
                  | Inr db' \<Rightarrow> Inr (Some False, db'))
               else
                 (let is_admin = has_role db (Some current_user_id) Admin;
                      is_owner = sql_eq (Some current_user_id) match_user_id
                  in
                  case client_ip_hash s db of
                    Inl e \<Rightarrow> Inl e
                  | Inr h \<Rightarrow>
                      (case insert_activity_log s db (Some current_user_id)
                              ''biometric_access_attempt''
                              ''Attempted to access facial recognition data''
                              (Some (JObject
                                 [(''target_user_id'', uuid_to_jsonb match_user_id),
                                  (''face_match_id'', uuid_to_jsonb match_id),
                                  (''is_admin'', JBool is_admin),
                                  (''is_owner'', bool_to_jsonb is_owner),
                                  (''access_granted'',
                                     bool_to_jsonb (sql_or (Some is_admin) is_owner)),
                                  (''timestamp'', JTimestamp (now s)),
                                  (''ip_hash'', h)])) of
                         Inl e \<Rightarrow> Inl e
                       | Inr db' \<Rightarrow> Inr (sql_or (Some is_admin) is_owner, db')))))"

text \<open>
  A run of requests, each one call of \<open>can_access_face_match\<close> in a transaction of its
  own: a call that raises leaves the database as it was and the next request goes on
  from there.
\<close>

fun can_access_face_match_calls ::
  "session list \<Rightarrow> database \<Rightarrow> uuid option \<Rightarrow> uuid option
     \<Rightarrow> (error + sql_bool) list \<times> database" where
  "can_access_face_match_calls [] db match_user_id match_id = ([], db)"
| "can_access_face_match_calls (s # ss) db match_user_id match_id =
     (case can_access_face_match s db match_user_id match_id of
        Inl e \<Rightarrow>
          (let (rs, db'') = can_access_face_match_calls ss db match_user_id match_id
           in (Inl e # rs, db''))
      | Inr (b, db') \<Rightarrow>
          (let (rs, db'') = can_access_face_match_calls ss db' match_user_id match_id
           in (Inr b # rs, db'')))"

text \<open>The row type of \<^verbatim>\<open>get_user_face_matches\<close>: the columns of
  \<^verbatim>\<open>face_matches\<close> but \<^verbatim>\<open>face_scan_data\<close>.\<close>

record face_match_row =
  fr_id :: uuid
  fr_user_id :: uuid
  fr_photo_id :: uuid
  fr_confidence_score :: "int option"
  fr_matched_at :: timestamptz

definition match_columns :: "face_match \<Rightarrow> face_match_row" where
  "match_columns fm =
     \<lparr>fr_id = fm_id fm, fr_user_id = fm_user_id fm, fr_photo_id = fm_photo_id fm,
      fr_confidence_score = fm_confidence_score fm, fr_matched_at = fm_matched_at fm\<rparr>"

text \<open>
  The \<^verbatim>\<open>WHERE\<close> clause of \<^verbatim>\<open>get_user_face_matches(target_user_id uuid DEFAULT NULL)\<close>,
  row by row in table order:
  \<^verbatim>\<open>(target_user_id IS NULL AND fm.user_id = auth.uid())
   OR (target_user_id IS NOT NULL AND can_access_face_match(target_user_id, fm.id))\<close>.
  With a target, every row calls \<open>can_access_face_match\<close>, which writes its log row
  before the next row is looked at.
\<close>

fun get_user_face_matches_where ::
  "session \<Rightarrow> database \<Rightarrow> uuid option \<Rightarrow> face_match list
     \<Rightarrow> error + (face_match list \<times> database)" where
  "get_user_face_matches_where s db target_user_id [] = Inr ([], db)"
| "get_user_face_matches_where s db target_user_id (fm # fms) =
     (if target_user_id = None then
        (case get_user_face_matches_where s db target_user_id fms of
           Inl e \<Rightarrow> Inl e
         | Inr (rows, db') \<Rightarrow>
             Inr (if is_true (sql_eq (Some (fm_user_id fm)) (auth_uid s))
                  then fm # rows else rows, db'))
      else
        (case can_access_face_match s db target_user_id (Some (fm_id fm)) of
           Inl e \<Rightarrow> Inl e
         | Inr (ok, db') \<Rightarrow>
             (case get_user_face_matches_where s db' target_user_id fms of
                Inl e \<Rightarrow> Inl e
              | Inr (rows, db'') \<Rightarrow> Inr (if is_true ok then fm # rows else rows, db''))))"

text \<open>\<^verbatim>\<open>SELECT fm.id, fm.user_id, fm.photo_id, fm.confidence_score, fm.matched_at ...
  ORDER BY fm.matched_at DESC\<close>.\<close>

definition get_user_face_matches ::
  "session \<Rightarrow> database \<Rightarrow> uuid option \<Rightarrow> error + (face_match_row list \<times> database)" where
  "get_user_face_matches s db target_user_id =
     (case get_user_face_matches_where s db target_user_id (face_matches db) of
        Inl e \<Rightarrow> Inl e
      | Inr (rows, db') \<Rightarrow>
          Inr (sort_key (\<lambda>r. - fr_matched_at r) (map match_columns rows), db'))"

text \<open>
  \<^verbatim>\<open>get_biometric_scan_data(match_id uuid)\<close>, \<^verbatim>\<open>SECURITY DEFINER\<close>:
  \<^verbatim>\<open>SELECT CASE WHEN has_role(auth.uid(), 'admin'::user_role) THEN face_scan_data
              ELSE NULL END
  FROM public.face_matches WHERE id = match_id LIMIT 1\<close>;
  a query that finds no row gives NULL.
\<close>

definition get_biometric_scan_data :: "session \<Rightarrow> database \<Rightarrow> uuid option \<Rightarrow> jsonb option" where
  "get_biometric_scan_data s db match_id =
     (case filter (\<lambda>fm. is_true (sql_eq (Some (fm_id fm)) match_id)) (face_matches db) of
        [] \<Rightarrow> None
      | fm # _ \<Rightarrow> if has_role db (auth_uid s) Admin then fm_face_scan_data fm else None)"

section \<open>An example database\<close>

text \<open>
  One administrator, one editor and one viewer; a public and a private event with a photo
  each, both uploaded by the editor and both with face data; one face match of the
  viewer; the three are the users of \<^verbatim>\<open>auth.users\<close>. The enum
  \<^verbatim>\<open>activity_type\<close> and the functions of schema \<^verbatim>\<open>public\<close> are as the
  migrations create them.
\<close>

definition profile_of :: "uuid \<Rightarrow> user_role \<Rightarrow> profile" where
  "profile_of u r =
     \<lparr>p_id = u + 100, p_user_id = u, p_full_name = None, p_email = None, p_role = r,
      p_status = Some ''active'', p_created_at = 0, p_updated_at = 0\<rparr>"

definition ev_public :: event where
  "ev_public =
     \<lparr>e_id = 10, e_name = ''Gala'', e_description = None, e_start_date = 0,
      e_end_date = None, e_visibility = Some Public, e_created_by = 2,
      e_created_at = 0, e_updated_at = 0\<rparr>"

definition ev_private :: event where
  "ev_private =
     \<lparr>e_id = 11, e_name = ''Board'', e_description = None, e_start_date = 0,
      e_end_date = None, e_visibility = Some Private, e_created_by = 2,
      e_created_at = 0, e_updated_at = 0\<rparr>"

definition face_vec :: jsonb where
  "face_vec = JObject [(''embedding'', JArray [JNumber 1, JNumber 2])]"

definition photo_public :: photo where
  "photo_public =
     \<lparr>ph_id = 20, ph_event_id = 10, ph_file_name = ''a.jpg'', ph_file_path = ''10/a.jpg'',
      ph_file_size = Some 1024, ph_mime_type = Some ''image/jpeg'',
      ph_faces_detected = Some 1, ph_face_data = Some face_vec, ph_uploaded_by = 2,
      ph_created_at = 5\<rparr>"

definition photo_private :: photo where
  "photo_private =
     \<lparr>ph_id = 21, ph_event_id = 11, ph_file_name = ''b.jpg'', ph_file_path = ''11/b.jpg'',
      ph_file_size = Some 2048, ph_mime_type = Some ''image/jpeg'',
      ph_faces_detected = Some 2, ph_face_data = Some face_vec, ph_uploaded_by = 2,
      ph_created_at = 7\<rparr>"

definition match_viewer :: face_match where
  "match_viewer =
     \<lparr>fm_id = 30, fm_user_id = 3, fm_photo_id = 20, fm_confidence_score = Some 9150,
      fm_face_scan_data = Some face_vec, fm_matched_at = 8\<rparr>"

definition db_migrated :: database where
  "db_migrated =
     \<lparr>auth_users = [1, 2, 3],
      profiles = [profile_of 1 Admin, profile_of 2 Editor, profile_of 3 Viewer],
      events = [ev_public, ev_private],
      photos = [photo_public, photo_private],
      face_matches = [match_viewer],
      activity_logs = [],
      activity_type_labels = activity_type_enum,
      public_functions = migrated_functions\<rparr>"

text \<open>The four labels \<open>can_access_face_match\<close> writes or compares.\<close>

definition biometric_labels :: "string list" where
  "biometric_labels =
     [''unauthorized_biometric_access'', ''biometric_access_rate_limited'',
      ''invalid_biometric_access'', ''biometric_access_attempt'']"

text \<open>A request of caller \<open>u\<close> (or of nobody) at second \<open>t\<close>.\<close>

definition session_at :: "uuid option \<Rightarrow> int \<Rightarrow> session" where
  "session_at u t =
     \<lparr>auth_uid = u, now = t * 1000000, gen_random_uuid = (\<lambda>n. 1000 + of_nat n),
      ip_hash = JNull\<rparr>"

section \<open>Three-valued logic and the role functions\<close>

lemma sql_or_true_iff: "is_true (sql_or a b) \<longleftrightarrow> is_true a \<or> is_true b"
  by (simp add: sql_or_def is_true_def)

lemma sql_and_true_iff: "is_true (sql_and a b) \<longleftrightarrow> is_true a \<and> is_true b"
  by (auto simp: sql_and_def is_true_def)

lemma sql_eq_true_iff: "is_true (sql_eq a b) \<longleftrightarrow> (\<exists>x. a = Some x \<and> b = Some x)"
  by (auto simp: sql_eq_def is_true_def split: option.splits)

lemma is_not_null_true_iff: "is_true (is_not_null a) \<longleftrightarrow> a \<noteq> None"
  by (simp add: is_not_null_def is_true_def)

lemma is_true_Some: "is_true (Some b) \<longleftrightarrow> b"
  by (simp add: is_true_def)

lemmas sql_true = sql_or_true_iff sql_and_true_iff sql_eq_true_iff is_not_null_true_iff is_true_Some

section \<open>Events: who reads, who inserts\<close>

lemma events_select_policy_iff:
  "is_true (events_select_policy s db e) \<longleftrightarrow> e_visibility e = Some Public \<or> auth_uid s \<noteq> None"
  by (auto simp: events_select_policy_def sql_true)

lemma has_role_iff:
  "has_role db u r \<longleftrightarrow> (\<exists>p \<in> set (profiles db). u = Some (p_user_id p) \<and> p_role p = r)"
  by (auto simp: has_role_def list_ex_iff sql_true)

lemma is_admin_or_editor_iff:
  "is_admin_or_editor db u \<longleftrightarrow>
     (\<exists>p \<in> set (profiles db). u = Some (p_user_id p) \<and> (p_role p = Admin \<or> p_role p = Editor))"
  by (auto simp: is_admin_or_editor_def list_ex_iff sql_true)

text \<open>
  C6. The read rule of events admits a row exactly when its visibility is public or the
  caller has an identity. The caller's role plays no part: the rows read do not change
  with the profiles table, where the roles are. Private and hybrid events are treated
  alike.
\<close>

theorem events_read_rule:
  "(e \<in> set (select_events s db) \<longleftrightarrow>
      e \<in> set (events db) \<and> (e_visibility e = Some Public \<or> auth_uid s \<noteq> None))
   \<and> select_events s (db\<lparr>profiles := ps\<rparr>) = select_events s db
   \<and> events_select_policy s db (e\<lparr>e_visibility := Some Private\<rparr>)
       = events_select_policy s db (e\<lparr>e_visibility := Some Hybrid\<rparr>)"
  by (simp add: select_events_def events_select_policy_iff) (simp add: events_select_policy_def sql_eq_def)

theorem events_read_rule_witness:
  "ev_public \<in> set (select_events (session_at None 100) db_migrated)
   \<and> ev_private \<notin> set (select_events (session_at None 100) db_migrated)
   \<and> ev_private \<in> set (select_events (session_at (Some 3) 100) db_migrated)"
  using events_read_rule [of ev_public "session_at None 100" db_migrated]
    events_read_rule [of ev_private "session_at None 100" db_migrated]
    events_read_rule [of ev_private "session_at (Some 3) 100" db_migrated]
  by (simp add: db_migrated_def session_at_def ev_public_def ev_private_def)

lemma insert_event_refused:
  "\<not> is_admin_or_editor db (auth_uid s) \<Longrightarrow> insert_event s db e = Inl (Rls_violation ''events'')"
  by (simp add: insert_event_def events_insert_check_def is_true_def)

lemma insert_event_stored:
  "is_admin_or_editor db (auth_uid s) \<Longrightarrow> e_id e \<notin> e_id ` set (events db) \<Longrightarrow>
   e_created_by e \<in> set (auth_users db) \<Longrightarrow>
   insert_event s db e = Inr (db\<lparr>events := events db @ [e]\<rparr>)"
  by (simp add: insert_event_def events_insert_check_def is_true_def)

lemma insert_photo_refused:
  "\<not> is_admin_or_editor db (auth_uid s) \<Longrightarrow> bigint_ok (ph_file_size ph) \<Longrightarrow>
   integer_ok (ph_faces_detected ph) \<Longrightarrow>
   insert_photo s db ph = Inl (Rls_violation ''photos'')"
  by (simp add: insert_photo_def photos_insert_check_def is_true_def)

lemma insert_photo_stored:
  "is_admin_or_editor db (auth_uid s) \<Longrightarrow> bigint_ok (ph_file_size ph) \<Longrightarrow>
   integer_ok (ph_faces_detected ph) \<Longrightarrow> ph_id ph \<notin> ph_id ` set (photos db) \<Longrightarrow>
   ph_event_id ph \<in> e_id ` set (events db) \<Longrightarrow> ph_uploaded_by ph \<in> set (auth_users db) \<Longrightarrow>
   insert_photo s db ph = Inr (db\<lparr>photos := photos db @ [ph]\<rparr>)"
  by (simp add: insert_photo_def photos_insert_check_def is_true_def)

lemma insert_event_constraints:
  "is_admin_or_editor db (auth_uid s) \<Longrightarrow>
   (e_id e \<in> e_id ` set (events db) \<longrightarrow>
      insert_event s db e = Inl (Unique_violation ''events_pkey''))
   \<and> (e_id e \<notin> e_id ` set (events db) \<and> e_created_by e \<notin> set (auth_users db) \<longrightarrow>
        insert_event s db e = Inl (Foreign_key_violation ''events_created_by_fkey''))"
  by (simp add: insert_event_def events_insert_check_def is_true_def)

lemma insert_photo_constraints:
  "is_admin_or_editor db (auth_uid s) \<Longrightarrow> bigint_ok (ph_file_size ph) \<Longrightarrow>
   integer_ok (ph_faces_detected ph) \<Longrightarrow>
   (ph_id ph \<in> ph_id ` set (photos db) \<longrightarrow>
      insert_photo s db ph = Inl (Unique_violation ''photos_pkey''))
   \<and> (ph_id ph \<notin> ph_id ` set (photos db) \<and> ph_event_id ph \<notin> e_id ` set (events db) \<longrightarrow>
        insert_photo s db ph = Inl (Foreign_key_violation ''photos_event_id_fkey''))
   \<and> (ph_id ph \<notin> ph_id ` set (photos db) \<and> ph_event_id ph \<in> e_id ` set (events db)
        \<and> ph_uploaded_by ph \<notin> set (auth_users db) \<longrightarrow>
        insert_photo s db ph = Inl (Foreign_key_violation ''photos_uploaded_by_fkey''))"
  by (simp add: insert_photo_def photos_insert_check_def is_true_def)

lemma insert_same_for_admitted_callers:
  "is_admin_or_editor db (auth_uid s) \<Longrightarrow> is_admin_or_editor db (auth_uid s') \<Longrightarrow>
   insert_event s db e = insert_event s' db e \<and> insert_photo s db ph = insert_photo s' db ph"
  by (simp add: insert_event_def insert_photo_def events_insert_check_def
      photos_insert_check_def)

text \<open>
  C10. The insert checks of events and of photos look at the caller's
  \<open>is_admin_or_editor\<close> and at nothing of the new row. A caller who fails it is
  refused with the policy error. For a caller who passes it, the row is stored whenever
  the constraints of the table hold (fresh primary key, foreign keys that point to stored
  rows, numbers that fit their columns), whoever its \<open>created_by\<close> or
  \<open>uploaded_by\<close> names: the owner field has to name a stored user, not the caller. A
  row with a stored primary key or a dangling foreign key is refused by the constraint.
  What an insert does is the same for any two callers who pass the check.
\<close>

theorem insert_checks_role_only:
  "(\<not> is_admin_or_editor db (auth_uid s) \<longrightarrow>
      insert_event s db e = Inl (Rls_violation ''events''))
   \<and> (is_admin_or_editor db (auth_uid s) \<and> e_id e \<notin> e_id ` set (events db)
        \<and> e_created_by e \<in> set (auth_users db) \<longrightarrow>
        insert_event s db e = Inr (db\<lparr>events := events db @ [e]\<rparr>))
   \<and> (\<not> is_admin_or_editor db (auth_uid s) \<and> bigint_ok (ph_file_size ph)
        \<and> integer_ok (ph_faces_detected ph) \<longrightarrow>
        insert_photo s db ph = Inl (Rls_violation ''photos''))
   \<and> (is_admin_or_editor db (auth_uid s) \<and> bigint_ok (ph_file_size ph)
        \<and> integer_ok (ph_faces_detected ph) \<and> ph_id ph \<notin> ph_id ` set (photos db)
        \<and> ph_event_id ph \<in> e_id ` set (events db)
        \<and> ph_uploaded_by ph \<in> set (auth_users db) \<longrightarrow>
        insert_photo s db ph = Inr (db\<lparr>photos := photos db @ [ph]\<rparr>))
   \<and> (is_admin_or_editor db (auth_uid s) \<and> e_id e \<in> e_id ` set (events db) \<longrightarrow>
        insert_event s db e = Inl (Unique_violation ''events_pkey''))
   \<and> (is_admin_or_editor db (auth_uid s) \<and> e_id e \<notin> e_id ` set (events db)
        \<and> e_created_by e \<notin> set (auth_users db) \<longrightarrow>
        insert_event s db e = Inl (Foreign_key_violation ''events_created_by_fkey''))
   \<and> (is_admin_or_editor db (auth_uid s) \<and> bigint_ok (ph_file_size ph)
        \<and> integer_ok (ph_faces_detected ph) \<and> ph_id ph \<in> ph_id ` set (photos db) \<longrightarrow>
        insert_photo s db ph = Inl (Unique_violation ''photos_pkey''))
   \<and> (is_admin_or_editor db (auth_uid s) \<and> bigint_ok (ph_file_size ph)
        \<and> integer_ok (ph_faces_detected ph) \<and> ph_id ph \<notin> ph_id ` set (photos db)
        \<and> ph_event_id ph \<notin> e_id ` set (events db) \<longrightarrow>
        insert_photo s db ph = Inl (Foreign_key_violation ''photos_event_id_fkey''))
   \<and> (is_admin_or_editor db (auth_uid s) \<and> bigint_ok (ph_file_size ph)
        \<and> integer_ok (ph_faces_detected ph) \<and> ph_id ph \<notin> ph_id ` set (photos db)
        \<and> ph_event_id ph \<in> e_id ` set (events db)
        \<and> ph_uploaded_by ph \<notin> set (auth_users db) \<longrightarrow>
        insert_photo s db ph = Inl (Foreign_key_violation ''photos_uploaded_by_fkey''))
   \<and> (\<not> bigint_ok (ph_file_size ph) \<longrightarrow>
        insert_photo s db ph = Inl (Numeric_value_out_of_range ''file_size''))
   \<and> (is_admin_or_editor db (auth_uid s) \<and> is_admin_or_editor db (auth_uid s') \<longrightarrow>
        insert_event s db e = insert_event s' db e
        \<and> insert_photo s db ph = insert_photo s' db ph)"
proof (intro conjI impI)
qed (simp_all add: insert_event_def insert_photo_def events_insert_check_def
      photos_insert_check_def is_true_def)

theorem insert_checks_role_only_witness:
  "auth_uid (session_at (Some 2) 100) \<noteq> Some (e_created_by (ev_public\<lparr>e_id := 12, e_created_by := 3\<rparr>))
   \<and> insert_event (session_at (Some 2) 100) db_migrated (ev_public\<lparr>e_id := 12, e_created_by := 3\<rparr>)
       = Inr (db_migrated\<lparr>events := [ev_public, ev_private, ev_public\<lparr>e_id := 12, e_created_by := 3\<rparr>]\<rparr>)
   \<and> insert_event (session_at (Some 3) 100) db_migrated (ev_public\<lparr>e_id := 12, e_created_by := 3\<rparr>)
       = Inl (Rls_violation ''events'')
   \<and> auth_uid (session_at (Some 2) 100)
       \<noteq> Some (ph_uploaded_by (photo_public\<lparr>ph_id := 22, ph_uploaded_by := 1\<rparr>))
   \<and> insert_photo (session_at (Some 2) 100) db_migrated (photo_public\<lparr>ph_id := 22, ph_uploaded_by := 1\<rparr>)
       = Inr (db_migrated\<lparr>photos :=
           [photo_public, photo_private, photo_public\<lparr>ph_id := 22, ph_uploaded_by := 1\<rparr>]\<rparr>)
   \<and> insert_photo (session_at None 100) db_migrated (photo_public\<lparr>ph_id := 22, ph_uploaded_by := 1\<rparr>)
       = Inl (Rls_violation ''photos'')
   \<and> insert_event (session_at (Some 2) 100) db_migrated (ev_public\<lparr>e_created_by := 3\<rparr>)
       = Inl (Unique_violation ''events_pkey'')
   \<and> insert_photo (session_at (Some 2) 100) db_migrated (photo_public\<lparr>ph_uploaded_by := 1\<rparr>)
       = Inl (Unique_violation ''photos_pkey'')
   \<and> insert_photo (session_at (Some 2) 100) db_migrated
         (photo_public\<lparr>ph_id := 22, ph_file_size := Some (2 ^ 63)\<rparr>)
       = Inl (Numeric_value_out_of_range ''file_size'')"
proof -
  let ?e = "ev_public\<lparr>e_id := 12, e_created_by := 3\<rparr>"
  let ?p = "photo_public\<lparr>ph_id := 22, ph_uploaded_by := 1\<rparr>"
  have ed: "is_admin_or_editor db_migrated (auth_uid (session_at (Some 2) 100))"
    by (simp add: is_admin_or_editor_iff db_migrated_def session_at_def profile_of_def)
  have vw: "\<not> is_admin_or_editor db_migrated (auth_uid (session_at (Some 3) 100))"
    by (simp add: is_admin_or_editor_iff db_migrated_def session_at_def profile_of_def)
  have an: "\<not> is_admin_or_editor db_migrated (auth_uid (session_at None 100))"
    by (simp add: is_admin_or_editor_iff session_at_def)
  have ev: "e_id ?e \<notin> e_id ` set (events db_migrated)" "e_created_by ?e \<in> set (auth_users db_migrated)"
    by (simp_all add: db_migrated_def ev_public_def ev_private_def)
  have ph: "bigint_ok (ph_file_size ?p)" "integer_ok (ph_faces_detected ?p)"
    "ph_id ?p \<notin> ph_id ` set (photos db_migrated)"
    "ph_event_id ?p \<in> e_id ` set (events db_migrated)"
    "ph_uploaded_by ?p \<in> set (auth_users db_migrated)"
    by (simp_all add: db_migrated_def photo_public_def photo_private_def ev_public_def
        ev_private_def bigint_ok_def integer_ok_def)
  have ls: "events db_migrated = [ev_public, ev_private]"
    "photos db_migrated = [photo_public, photo_private]"
    by (simp_all add: db_migrated_def)
  have dup: "e_id (ev_public\<lparr>e_created_by := 3\<rparr>) \<in> e_id ` set (events db_migrated)"
    "ph_id (photo_public\<lparr>ph_uploaded_by := 1\<rparr>) \<in> ph_id ` set (photos db_migrated)"
    "bigint_ok (ph_file_size (photo_public\<lparr>ph_uploaded_by := 1\<rparr>))"
    "integer_ok (ph_faces_detected (photo_public\<lparr>ph_uploaded_by := 1\<rparr>))"
    by (simp_all add: db_migrated_def photo_public_def bigint_ok_def integer_ok_def)
  have big: "\<not> bigint_ok (ph_file_size (photo_public\<lparr>ph_id := 22, ph_file_size := Some (2 ^ 63)\<rparr>))"
    by (simp add: bigint_ok_def)
  note r = insert_checks_role_only
  have 1: "insert_event (session_at (Some 2) 100) db_migrated ?e
             = Inr (db_migrated\<lparr>events := events db_migrated @ [?e]\<rparr>)"
    using r [of db_migrated "session_at (Some 2) 100" ?e] ed ev by simp
  have 2: "insert_event (session_at (Some 3) 100) db_migrated ?e = Inl (Rls_violation ''events'')"
    using r [of db_migrated "session_at (Some 3) 100" ?e] vw by simp
  have 3: "insert_photo (session_at (Some 2) 100) db_migrated ?p
             = Inr (db_migrated\<lparr>photos := photos db_migrated @ [?p]\<rparr>)"
    using r [of db_migrated "session_at (Some 2) 100" _ ?p] ed ph by simp
  have 4: "insert_photo (session_at None 100) db_migrated ?p = Inl (Rls_violation ''photos'')"
    using r [of db_migrated "session_at None 100" _ ?p] an ph by simp
  have 5: "insert_event (session_at (Some 2) 100) db_migrated (ev_public\<lparr>e_created_by := 3\<rparr>)
             = Inl (Unique_violation ''events_pkey'')"
    using r [of db_migrated "session_at (Some 2) 100" "ev_public\<lparr>e_created_by := 3\<rparr>"] ed dup(1)
    by simp
  have 6: "insert_photo (session_at (Some 2) 100) db_migrated (photo_public\<lparr>ph_uploaded_by := 1\<rparr>)
             = Inl (Unique_violation ''photos_pkey'')"
    using r [of db_migrated "session_at (Some 2) 100" _ "photo_public\<lparr>ph_uploaded_by := 1\<rparr>"]
      ed dup(2,3,4) by simp
  have 7: "insert_photo (session_at (Some 2) 100) db_migrated
         (photo_public\<lparr>ph_id := 22, ph_file_size := Some (2 ^ 63)\<rparr>)
       = Inl (Numeric_value_out_of_range ''file_size'')"
    using r [where ph = "photo_public\<lparr>ph_id := 22, ph_file_size := Some (2 ^ 63)\<rparr>"
      and s = "session_at (Some 2) 100" and db = db_migrated] big by simp
  have 0: "auth_uid (session_at (Some 2) 100) \<noteq> Some (e_created_by ?e)"
    "auth_uid (session_at (Some 2) 100) \<noteq> Some (ph_uploaded_by ?p)"
    by (simp_all add: session_at_def)
  from 0 1 2 3 4 5 6 7 show ?thesis by (simp add: ls)
qed

section \<open>The biometric scan payload\<close>

lemma filter_key_distinct:
  "distinct (map k xs) \<Longrightarrow> x \<in> set xs \<Longrightarrow> filter (\<lambda>y. k y = k x) xs = [x]"
proof (induction xs)
  case Nil
  then show ?case by simp
next
  case (Cons a xs)
  show ?case
  proof (cases "a = x")
    case True
    with Cons.prems have "\<forall>y \<in> set xs. k y \<noteq> k x" by (auto simp: image_iff)
    then have "filter (\<lambda>y. k y = k x) xs = []" by (simp add: filter_empty_conv)
    with True show ?thesis by simp
  next
    case False
    with Cons.prems have "x \<in> set xs" and "k a \<noteq> k x" by auto
    with Cons.IH Cons.prems show ?thesis by simp
  qed
qed

lemma get_biometric_scan_data_row:
  assumes "distinct (map fm_id (face_matches db))" and "fm \<in> set (face_matches db)"
  shows "get_biometric_scan_data s db (Some (fm_id fm))
           = (if has_role db (auth_uid s) Admin then fm_face_scan_data fm else None)"
proof -
  have "filter (\<lambda>r. is_true (sql_eq (Some (fm_id r)) (Some (fm_id fm)))) (face_matches db)
          = filter (\<lambda>r. fm_id r = fm_id fm) (face_matches db)"
    by (simp add: sql_eq_true_iff eq_commute)
  also have "\<dots> = [fm]" using assms by (rule filter_key_distinct)
  finally show ?thesis by (simp add: get_biometric_scan_data_def)
qed

lemma get_biometric_scan_data_forbidden:
  "\<not> has_role db (auth_uid s) Admin \<Longrightarrow> get_biometric_scan_data s db m = None"
  by (simp add: get_biometric_scan_data_def split: list.splits)

lemma get_biometric_scan_data_missing:
  assumes "\<forall>fm \<in> set (face_matches db). m \<noteq> Some (fm_id fm)"
  shows "get_biometric_scan_data s db m = None"
proof -
  from assms have "filter (\<lambda>r. is_true (sql_eq (Some (fm_id r)) m)) (face_matches db) = []"
    by (auto simp: filter_empty_conv sql_eq_true_iff)
  then show ?thesis by (simp add: get_biometric_scan_data_def)
qed

text \<open>
  C7. With \<^verbatim>\<open>id\<close> the primary key of \<^verbatim>\<open>face_matches\<close>:
  \<open>get_biometric_scan_data\<close> gives the stored \<^verbatim>\<open>face_scan_data\<close> of the row
  with the id asked for when the caller is an administrator and the row exists. A caller
  who is no administrator gets NULL whether the row exists or not, and so does anyone
  who asks for an id no row has: a missing match and a forbidden one look the same.
\<close>

theorem scan_data_admin_only:
  "distinct (map fm_id (face_matches db)) \<Longrightarrow>
   (fm \<in> set (face_matches db) \<and> has_role db (auth_uid s) Admin \<longrightarrow>
      get_biometric_scan_data s db (Some (fm_id fm)) = fm_face_scan_data fm)
   \<and> (\<not> has_role db (auth_uid s) Admin \<longrightarrow> get_biometric_scan_data s db m = None)
   \<and> ((\<forall>r \<in> set (face_matches db). m \<noteq> Some (fm_id r)) \<longrightarrow>
        get_biometric_scan_data s db m = None)"
  by (simp add: get_biometric_scan_data_row get_biometric_scan_data_forbidden
      get_biometric_scan_data_missing)

theorem scan_data_admin_only_witness:
  "get_biometric_scan_data (session_at (Some 1) 100) db_migrated (Some 30) = Some face_vec
   \<and> get_biometric_scan_data (session_at (Some 3) 100) db_migrated (Some 30) = None
   \<and> get_biometric_scan_data (session_at (Some 3) 100) db_migrated (Some 31) = None
   \<and> get_biometric_scan_data (session_at (Some 1) 100) db_migrated (Some 31) = None"
proof -
  have d: "distinct (map fm_id (face_matches db_migrated))"
    by (simp add: db_migrated_def)
  have a: "has_role db_migrated (auth_uid (session_at (Some 1) 100)) Admin"
    by (simp add: has_role_iff db_migrated_def session_at_def profile_of_def)
  have v: "\<not> has_role db_migrated (auth_uid (session_at (Some 3) 100)) Admin"
    by (simp add: has_role_iff db_migrated_def session_at_def profile_of_def)
  have r: "match_viewer \<in> set (face_matches db_migrated)"
    by (simp add: db_migrated_def)
  have n: "\<forall>r \<in> set (face_matches db_migrated). Some 31 \<noteq> Some (fm_id r)"
    by (simp add: db_migrated_def match_viewer_def)
  from scan_data_admin_only [OF d, of match_viewer "session_at (Some 1) 100" "Some 31"]
    scan_data_admin_only [OF d, of match_viewer "session_at (Some 3) 100" "Some 30"]
    scan_data_admin_only [OF d, of match_viewer "session_at (Some 3) 100" "Some 31"]
    a v r n
  show ?thesis by (simp add: match_viewer_def)
qed

section \<open>The safe photo listing\<close>

lemma join_on_key:
  "distinct (map k es) \<Longrightarrow>
   concat (map (\<lambda>e. if k e = v then (if c e then [x] else []) else []) es)
     = (if \<exists>e \<in> set es. k e = v \<and> c e then [x] else [])"
proof (induction es)
  case Nil
  then show ?case by simp
next
  case (Cons a es)
  then have ih: "concat (map (\<lambda>e. if k e = v then (if c e then [x] else []) else []) es)
     = (if \<exists>e \<in> set es. k e = v \<and> c e then [x] else [])" by simp
  show ?case
  proof (cases "k a = v")
    case True
    with Cons.prems have "\<forall>e \<in> set es. k e \<noteq> v" by (auto simp: image_iff)
    with True ih show ?thesis by auto
  next
    case False
    with ih show ?thesis by auto
  qed
qed

lemma concat_map_if: "concat (map (\<lambda>p. if P p then [f p] else []) ps) = map f (filter P ps)"
  by (induction ps) auto

lemma get_safe_photos_rows:
  assumes "distinct (map e_id (events db))"
  shows "get_safe_photos s db f
           = sort_key (\<lambda>r. - sp_created_at r)
               (map safe_columns (filter (\<lambda>p. \<exists>e \<in> set (events db). e_id e = ph_event_id p
                     \<and> (e_visibility e = Some Public \<or> auth_uid s \<noteq> None)
                     \<and> (f = None \<or> f = Some (ph_event_id p))) (photos db)))"
proof -
  have inner: "concat (map (\<lambda>e. if e_id e = ph_event_id p then
            (if is_true (sql_and
                 (sql_or (sql_eq (e_visibility e) (Some Public)) (is_not_null (auth_uid s)))
                 (sql_or (Some (f = None)) (sql_eq (Some (ph_event_id p)) f)))
             then [safe_columns p] else []) else []) (events db))
        = (if \<exists>e \<in> set (events db). e_id e = ph_event_id p
               \<and> (e_visibility e = Some Public \<or> auth_uid s \<noteq> None)
               \<and> (f = None \<or> f = Some (ph_event_id p))
           then [safe_columns p] else [])" for p
    using assms by (simp add: join_on_key sql_true eq_commute)
  show ?thesis
    unfolding get_safe_photos_def by (simp add: inner concat_map_if)
qed

lemma get_safe_photos_sorted:
  "sorted_wrt (\<lambda>a b. sp_created_at b \<le> sp_created_at a) (get_safe_photos s db f)"
proof -
  have "sorted (map (\<lambda>r. - sp_created_at r) (get_safe_photos s db f))"
    unfolding get_safe_photos_def by (rule sorted_sort_key)
  then show ?thesis by (simp add: sorted_map)
qed

lemma safe_columns_face_data: "safe_columns (ph_face_data_update g p) = safe_columns p"
  by (simp add: safe_columns_def)

lemma get_safe_photos_face_data:
  "get_safe_photos s (db\<lparr>photos := map (ph_face_data_update g) (photos db)\<rparr>) f
     = get_safe_photos s db f"
  unfolding get_safe_photos_def
  by (simp add: safe_columns_face_data o_def cong: if_cong)


text \<open>
  C9. With \<^verbatim>\<open>id\<close> the primary key of \<^verbatim>\<open>events\<close>: \<open>get_safe_photos\<close> gives
  one row for each photo whose event is public or whose reader has an identity, and that
  belongs to the event asked for when one is asked for; the row carries the photo's
  \<^verbatim>\<open>id\<close>, \<^verbatim>\<open>event_id\<close>, \<^verbatim>\<open>file_name\<close>, \<^verbatim>\<open>file_path\<close>, \<^verbatim>\<open>mime_type\<close>,
  \<^verbatim>\<open>file_size\<close>, \<^verbatim>\<open>uploaded_by\<close>, \<^verbatim>\<open>created_at\<close> and
  \<^verbatim>\<open>faces_detected\<close> as stored, and nothing of \<^verbatim>\<open>face_data\<close> (the row type has
  no such column, and the result stays the same when the stored face data is replaced by
  anything else). The rows come latest first. A caller with no identity gets photos of
  public events only.
\<close>

theorem get_safe_photos_spec:
  "distinct (map e_id (events db)) \<Longrightarrow>
   mset (get_safe_photos s db f)
     = mset (map (\<lambda>p. \<lparr>sp_id = ph_id p, sp_event_id = ph_event_id p,
                        sp_file_name = ph_file_name p, sp_file_path = ph_file_path p,
                        sp_mime_type = ph_mime_type p, sp_file_size = ph_file_size p,
                        sp_uploaded_by = ph_uploaded_by p, sp_created_at = ph_created_at p,
                        sp_faces_detected = ph_faces_detected p\<rparr>)
         (filter (\<lambda>p. \<exists>e \<in> set (events db). e_id e = ph_event_id p
                    \<and> (e_visibility e = Some Public \<or> auth_uid s \<noteq> None)
                    \<and> (f = None \<or> f = Some (ph_event_id p)))
            (photos db)))
   \<and> sorted_wrt (\<lambda>a b. sp_created_at b \<le> sp_created_at a) (get_safe_photos s db f)
   \<and> get_safe_photos s (db\<lparr>photos := map (ph_face_data_update g) (photos db)\<rparr>) f
       = get_safe_photos s db f
   \<and> (auth_uid s = None \<longrightarrow>
        (\<forall>r \<in> set (get_safe_photos s db f).
           \<exists>e \<in> set (events db). e_id e = sp_event_id r \<and> e_visibility e = Some Public))"
proof -
  assume d: "distinct (map e_id (events db))"
  have cols: "safe_columns = (\<lambda>p. \<lparr>sp_id = ph_id p, sp_event_id = ph_event_id p,
                        sp_file_name = ph_file_name p, sp_file_path = ph_file_path p,
                        sp_mime_type = ph_mime_type p, sp_file_size = ph_file_size p,
                        sp_uploaded_by = ph_uploaded_by p, sp_created_at = ph_created_at p,
                        sp_faces_detected = ph_faces_detected p\<rparr>)"
    by (rule ext) (simp add: safe_columns_def)
  have rows: "mset (get_safe_photos s db f)
     = mset (map safe_columns
         (filter (\<lambda>p. \<exists>e \<in> set (events db). e_id e = ph_event_id p
                    \<and> (e_visibility e = Some Public \<or> auth_uid s \<noteq> None)
                    \<and> (f = None \<or> f = Some (ph_event_id p)))
            (photos db)))"
    by (simp add: get_safe_photos_rows [OF d])
  have anon: "\<exists>e \<in> set (events db). e_id e = sp_event_id r \<and> e_visibility e = Some Public"
    if "auth_uid s = None" and "r \<in> set (get_safe_photos s db f)" for r
  proof -
    from that(2) have "r \<in># mset (get_safe_photos s db f)" by simp
    then obtain p where "r = safe_columns p" and
      "\<exists>e \<in> set (events db). e_id e = ph_event_id p
          \<and> (e_visibility e = Some Public \<or> auth_uid s \<noteq> None)
          \<and> (f = None \<or> f = Some (ph_event_id p))"
      unfolding rows by auto
    with that(1) show ?thesis by (auto simp: safe_columns_def)
  qed
  from rows [unfolded cols] anon show ?thesis
    by (simp add: get_safe_photos_sorted get_safe_photos_face_data)
qed

theorem get_safe_photos_spec_witness:
  "get_safe_photos (session_at None 100) db_migrated None
     = [\<lparr>sp_id = 20, sp_event_id = 10, sp_file_name = ''a.jpg'', sp_file_path = ''10/a.jpg'',
         sp_mime_type = Some ''image/jpeg'', sp_file_size = Some 1024, sp_uploaded_by = 2,
         sp_created_at = 5, sp_faces_detected = Some 1\<rparr>]
   \<and> get_safe_photos (session_at (Some 3) 100) db_migrated None
       = [\<lparr>sp_id = 21, sp_event_id = 11, sp_file_name = ''b.jpg'', sp_file_path = ''11/b.jpg'',
           sp_mime_type = Some ''image/jpeg'', sp_file_size = Some 2048, sp_uploaded_by = 2,
           sp_created_at = 7, sp_faces_detected = Some 2\<rparr>,
          \<lparr>sp_id = 20, sp_event_id = 10, sp_file_name = ''a.jpg'', sp_file_path = ''10/a.jpg'',
           sp_mime_type = Some ''image/jpeg'', sp_file_size = Some 1024, sp_uploaded_by = 2,
           sp_created_at = 5, sp_faces_detected = Some 1\<rparr>]
   \<and> get_safe_photos (session_at (Some 3) 100) db_migrated (Some 11)
       = [\<lparr>sp_id = 21, sp_event_id = 11, sp_file_name = ''b.jpg'', sp_file_path = ''11/b.jpg'',
           sp_mime_type = Some ''image/jpeg'', sp_file_size = Some 2048, sp_uploaded_by = 2,
           sp_created_at = 7, sp_faces_detected = Some 2\<rparr>]"
proof -
  have d: "distinct (map e_id (events db_migrated))"
    by (simp add: db_migrated_def ev_public_def ev_private_def)
  have a: "get_safe_photos (session_at None 100) db_migrated None = [safe_columns photo_public]"
    by (simp add: get_safe_photos_def db_migrated_def session_at_def ev_public_def
        ev_private_def photo_public_def photo_private_def sql_and_def sql_or_def sql_eq_def
        is_true_def is_not_null_def)
  have b: "get_safe_photos (session_at (Some 3) 100) db_migrated None
       = [safe_columns photo_private, safe_columns photo_public]"
    by (simp add: get_safe_photos_def db_migrated_def session_at_def ev_public_def
        ev_private_def photo_public_def photo_private_def sql_and_def sql_or_def sql_eq_def
        is_true_def is_not_null_def safe_columns_def)
  have c: "get_safe_photos (session_at (Some 3) 100) db_migrated (Some 11)
       = [safe_columns photo_private]"
    by (simp add: get_safe_photos_def db_migrated_def session_at_def ev_public_def
        ev_private_def photo_public_def photo_private_def sql_and_def sql_or_def sql_eq_def
        is_true_def is_not_null_def)
  from get_safe_photos_spec [OF d, of "session_at None 100" None id] a b c
  show ?thesis by (simp add: safe_columns_def photo_public_def photo_private_def)
qed

section \<open>Face data on the photo read paths\<close>

lemma select_photos_iff:
  "ph \<in> set (select_photos s db) \<longleftrightarrow>
     ph \<in> set (photos db)
     \<and> (\<exists>e \<in> set (events db). e_id e = ph_event_id ph
           \<and> (e_visibility e = Some Public \<or> auth_uid s \<noteq> None))"
  by (auto simp: select_photos_def photos_select_policy_def select_events_def
      events_select_policy_iff list_ex_iff sql_true)

lemma select_photos_as_stored:
  "select_photos s db
     = filter (\<lambda>ph. \<exists>e \<in> set (events db). e_id e = ph_event_id ph
                  \<and> (e_visibility e = Some Public \<or> auth_uid s \<noteq> None)) (photos db)"
  unfolding select_photos_def
  by (rule filter_cong)
     (auto simp: photos_select_policy_def select_events_def events_select_policy_iff
       list_ex_iff sql_true)

lemma get_photo_with_secure_face_data_redacts:
  "\<not> has_role db (auth_uid s) Admin \<Longrightarrow> auth_uid s \<noteq> Some (ph_uploaded_by p) \<Longrightarrow>
   get_photo_with_secure_face_data s db p = [p\<lparr>ph_face_data := None\<rparr>]"
  by (auto simp: get_photo_with_secure_face_data_def sql_true)

lemma get_photo_with_secure_face_data_shows:
  "has_role db (auth_uid s) Admin \<or> auth_uid s = Some (ph_uploaded_by p) \<Longrightarrow>
   get_photo_with_secure_face_data s db p = [p]"
  by (auto simp: get_photo_with_secure_face_data_def sql_true)

text \<open>
  C1. The claim is that a caller who is neither an administrator nor the uploader reads
  \<^verbatim>\<open>face_data\<close> as NULL on every read path. The function
  \<open>get_photo_with_secure_face_data\<close> does that, and \<open>get_safe_photos\<close> has no such
  column. Direct table access does not: in the example database the viewer, who uploaded
  nothing, selects both photos from the table with their face data as stored, and a
  caller with no identity selects the public event's photo with its face data.
\<close>

theorem direct_select_shows_face_data:
  "\<not> has_role db_migrated (auth_uid (session_at (Some 3) 100)) Admin
   \<and> auth_uid (session_at (Some 3) 100) \<noteq> Some (ph_uploaded_by photo_private)
   \<and> select_photos (session_at (Some 3) 100) db_migrated = [photo_public, photo_private]
   \<and> ph_face_data photo_private = Some face_vec
   \<and> get_photo_with_secure_face_data (session_at (Some 3) 100) db_migrated photo_private
       = [photo_private\<lparr>ph_face_data := None\<rparr>]
   \<and> select_photos (session_at None 100) db_migrated = [photo_public]
   \<and> ph_face_data photo_public = Some face_vec"
proof -
  have v: "\<not> has_role db_migrated (auth_uid (session_at (Some 3) 100)) Admin"
    by (simp add: has_role_iff db_migrated_def session_at_def profile_of_def)
  have u: "auth_uid (session_at (Some 3) 100) \<noteq> Some (ph_uploaded_by photo_private)"
    by (simp add: session_at_def photo_private_def)
  have a: "select_photos (session_at (Some 3) 100) db_migrated = [photo_public, photo_private]"
    by (simp add: select_photos_as_stored db_migrated_def session_at_def ev_public_def
        ev_private_def photo_public_def photo_private_def)
  have b: "select_photos (session_at None 100) db_migrated = [photo_public]"
    by (simp add: select_photos_as_stored db_migrated_def session_at_def ev_public_def
        ev_private_def photo_public_def photo_private_def)
  from v u a b show ?thesis
    by (simp add: get_photo_with_secure_face_data_redacts)
       (simp add: photo_public_def photo_private_def)
qed

section \<open>Updating profiles\<close>

lemma profiles_update_using_iff:
  "is_true (profiles_update_using s db r) \<longleftrightarrow>
     auth_uid s = Some (p_user_id r) \<or> has_role db (auth_uid s) Admin"
  by (auto simp: profiles_update_using_def sql_true)

lemma profiles_update_check_iff:
  "is_true (profiles_update_check s db r) \<longleftrightarrow>
     auth_uid s = Some (p_user_id r) \<or> has_role db (auth_uid s) Admin"
  by (simp add: profiles_update_check_def profiles_update_using_iff)

lemma update_rows_admitted:
  "update_rows s db wh st rs = Inr rs' \<Longrightarrow>
   length rs' = length rs
   \<and> (\<forall>i < length rs. rs' ! i \<noteq> rs ! i \<longrightarrow>
         is_true (profiles_update_using s db (rs ! i))
         \<and> is_true (profiles_update_check s db (rs' ! i)))"
proof (induction rs arbitrary: rs')
  case Nil
  then show ?case by simp
next
  case (Cons r rs)
  from Cons.prems obtain x xs where rs': "rs' = x # xs" and tl: "update_rows s db wh st rs = Inr xs"
    and hd: "x \<noteq> r \<longrightarrow> is_true (profiles_update_using s db r)
                \<and> is_true (profiles_update_check s db x)"
    by (auto simp: Let_def split: if_splits sum.splits)
  from Cons.IH [OF tl] have ih: "length xs = length rs"
    "\<forall>i < length rs. xs ! i \<noteq> rs ! i \<longrightarrow>
         is_true (profiles_update_using s db (rs ! i))
         \<and> is_true (profiles_update_check s db (xs ! i))" by simp_all
  show ?case unfolding rs'
  proof (intro conjI allI impI)
    show "length (x # xs) = length (r # rs)" using ih(1) by simp
  next
    fix i assume "i < length (r # rs)" and "(x # xs) ! i \<noteq> (r # rs) ! i"
    then show "is_true (profiles_update_using s db ((r # rs) ! i))"
      using hd ih(2) by (cases i) auto
  next
    fix i assume "i < length (r # rs)" and "(x # xs) ! i \<noteq> (r # rs) ! i"
    then show "is_true (profiles_update_check s db ((x # xs) ! i))"
      using hd ih(2) by (cases i) auto
  qed
qed

lemma update_rows_own_role:
  "auth_uid s = Some u \<Longrightarrow>
   update_rows s db (\<lambda>r. p_user_id r = u) (\<lambda>r. r\<lparr>p_role := x\<rparr>) rs
     = Inr (map (\<lambda>r. if p_user_id r = u then r\<lparr>p_role := x, p_updated_at := now s\<rparr> else r) rs)"
  by (induction rs)
     (simp_all add: profiles_update_using_iff profiles_update_check_iff
       update_updated_at_column_def Let_def)

text \<open>
  What the update rule of profiles admits: the caller must be an administrator or the
  owning identity of the row, before the update and after it. The rule does not look at
  the role column.
\<close>

lemma profile_update_admission:
  "(is_true (profiles_update_using s db r) \<longleftrightarrow>
      auth_uid s = Some (p_user_id r) \<or> has_role db (auth_uid s) Admin)
   \<and> (is_true (profiles_update_check s db new_row) \<longleftrightarrow>
        auth_uid s = Some (p_user_id new_row) \<or> has_role db (auth_uid s) Admin)
   \<and> profiles_update_check s db (new_row\<lparr>p_role := x\<rparr>) = profiles_update_check s db new_row
   \<and> (update_profiles s db wh st = Inr db' \<longrightarrow>
        length (profiles db') = length (profiles db)
        \<and> (\<forall>i < length (profiles db). profiles db' ! i \<noteq> profiles db ! i \<longrightarrow>
              (auth_uid s = Some (p_user_id (profiles db ! i))
                 \<or> has_role db (auth_uid s) Admin)
              \<and> (auth_uid s = Some (p_user_id (profiles db' ! i))
                 \<or> has_role db (auth_uid s) Admin)))
   \<and> (auth_uid s = Some u \<longrightarrow>
        updateUserRole s db u x
          = Inr (db\<lparr>profiles :=
              map (\<lambda>r. if p_user_id r = u then r\<lparr>p_role := x, p_updated_at := now s\<rparr> else r)
                (profiles db)\<rparr>))"
proof -
  have upd: "length (profiles db') = length (profiles db)
        \<and> (\<forall>i < length (profiles db). profiles db' ! i \<noteq> profiles db ! i \<longrightarrow>
              (auth_uid s = Some (p_user_id (profiles db ! i))
                 \<or> has_role db (auth_uid s) Admin)
              \<and> (auth_uid s = Some (p_user_id (profiles db' ! i))
                 \<or> has_role db (auth_uid s) Admin))"
    if "update_profiles s db wh st = Inr db'"
  proof -
    from that obtain rs where rs: "update_rows s db wh st (profiles db) = Inr rs"
      and db': "db' = db\<lparr>profiles := rs\<rparr>"
      by (auto simp: update_profiles_def split: sum.splits)
    from update_rows_admitted [OF rs] show ?thesis
      by (simp add: db' profiles_update_using_iff profiles_update_check_iff)
  qed
  have own: "updateUserRole s db u x
          = Inr (db\<lparr>profiles :=
              map (\<lambda>r. if p_user_id r = u then r\<lparr>p_role := x, p_updated_at := now s\<rparr> else r)
                (profiles db)\<rparr>)" if "auth_uid s = Some u"
    using that by (simp add: updateUserRole_def update_profiles_def update_rows_own_role)
  have col: "profiles_update_check s db (new_row\<lparr>p_role := x\<rparr>) = profiles_update_check s db new_row"
    by (simp add: profiles_update_check_def profiles_update_using_def)
  from upd own col show ?thesis
    by (simp only: profiles_update_using_iff profiles_update_check_iff) blast
qed

text \<open>
  C5. The claim is that an update of a profile is admitted only for an administrator or
  the owner of the row, and that an owner who is no administrator cannot change the role
  of the row. The first part holds (\<open>profile_update_admission\<close>). The second does not:
  the viewer of the example database, who is no administrator, runs
  \<open>updateUserRole\<close> on their own \<^verbatim>\<open>user_id\<close> and the row is stored with the role
  \<open>Admin\<close>. The user interface shows the role control to administrators only and
  never for the caller's own row; the update policy has no such guard.
\<close>

theorem viewer_makes_self_admin:
  "\<not> has_role db_migrated (auth_uid (session_at (Some 3) 100)) Admin
   \<and> get_user_role db_migrated (Some 3) = Some Viewer
   \<and> updateUserRole (session_at (Some 3) 100) db_migrated 3 Admin
       = Inr (db_migrated\<lparr>profiles :=
           [profile_of 1 Admin, profile_of 2 Editor,
            (profile_of 3 Admin)\<lparr>p_updated_at := 100000000\<rparr>]\<rparr>)"
proof -
  have "\<not> has_role db_migrated (auth_uid (session_at (Some 3) 100)) Admin"
    by (simp add: has_role_iff db_migrated_def session_at_def profile_of_def)
  moreover have "get_user_role db_migrated (Some 3) = Some Viewer"
    by (simp add: get_user_role_def sql_eq_true_iff db_migrated_def profile_of_def)
  moreover have "updateUserRole (session_at (Some 3) 100) db_migrated 3 Admin
       = Inr (db_migrated\<lparr>profiles :=
           [profile_of 1 Admin, profile_of 2 Editor,
            (profile_of 3 Admin)\<lparr>p_updated_at := 100000000\<rparr>]\<rparr>)"
    by (simp add: updateUserRole_def update_profiles_def
        profiles_update_using_iff profiles_update_check_iff update_updated_at_column_def
        db_migrated_def session_at_def profile_of_def Let_def)
  ultimately show ?thesis by simp
qed

section \<open>One call of the biometric access check\<close>

lemma enum_in_ok: "label \<in> set (activity_type_labels db) \<Longrightarrow> enum_in db label = Inr label"
  by (simp add: enum_in_def)

lemma enum_in_bad:
  "label \<notin> set (activity_type_labels db) \<Longrightarrow> enum_in db label = Inl (Invalid_enum_input label)"
  by (simp add: enum_in_def)

lemma insert_activity_log_ok:
  "label \<in> set (activity_type_labels db) \<Longrightarrow>
   insert_activity_log s db u label d m
     = Inr (db\<lparr>activity_logs := activity_logs db @ [new_activity_log s db u label d m]\<rparr>)"
  by (simp add: insert_activity_log_def enum_in_ok)

lemma insert_activity_log_bad:
  "label \<notin> set (activity_type_labels db) \<Longrightarrow>
   insert_activity_log s db u label d m = Inl (Invalid_enum_input label)"
  by (simp add: insert_activity_log_def enum_in_bad)

lemma rate_limit_exceeded_ok:
  "''biometric_access_attempt'' \<in> set (activity_type_labels db) \<Longrightarrow>
   rate_limit_exceeded s db u
     = Inr (10 < length (biometric_access_attempts s db u ''biometric_access_attempt''))"
  by (simp add: rate_limit_exceeded_def enum_in_ok)

lemma rate_limit_exceeded_bad:
  "''biometric_access_attempt'' \<notin> set (activity_type_labels db) \<Longrightarrow>
   rate_limit_exceeded s db u = Inl (Invalid_enum_input ''biometric_access_attempt'')"
  by (simp add: rate_limit_exceeded_def enum_in_bad)

lemma is_valid_match_iff:
  "is_valid_match db mu mi \<longleftrightarrow>
     (\<exists>fm \<in> set (face_matches db). mi = Some (fm_id fm) \<and> mu = Some (fm_user_id fm))"
  by (auto simp: is_valid_match_def list_ex_iff sql_true)

lemma sql_or_owner: "sql_or (Some a) (sql_eq (Some x) (Some y)) = Some (a \<or> x = y)"
  by (simp add: sql_or_def sql_eq_def)

text \<open>The ways out of the function in a database whose enum has the labels it meets.\<close>

lemma can_access_unauthenticated:
  assumes "auth_uid s = None"
    and "''unauthorized_biometric_access'' \<in> set (activity_type_labels db)"
  shows "\<exists>d m. can_access_face_match s db mu mi
           = Inr (Some False, db\<lparr>activity_logs := activity_logs db @
                   [new_activity_log s db None ''unauthorized_biometric_access'' d m]\<rparr>)"
  using assms by (simp add: can_access_face_match_def insert_activity_log_ok) blast

lemma can_access_rate_limited:
  assumes "auth_uid s = Some u"
    and "''biometric_access_attempt'' \<in> set (activity_type_labels db)"
    and "''biometric_access_rate_limited'' \<in> set (activity_type_labels db)"
    and "10 < length (biometric_access_attempts s db u ''biometric_access_attempt'')"
  shows "\<exists>d m. can_access_face_match s db mu mi
           = Inr (Some False, db\<lparr>activity_logs := activity_logs db @
                   [new_activity_log s db (Some u) ''biometric_access_rate_limited'' d m]\<rparr>)"
  using assms
  by (simp add: can_access_face_match_def rate_limit_exceeded_ok insert_activity_log_ok) blast

lemma can_access_invalid:
  assumes "auth_uid s = Some u"
    and "''biometric_access_attempt'' \<in> set (activity_type_labels db)"
    and "''invalid_biometric_access'' \<in> set (activity_type_labels db)"
    and "length (biometric_access_attempts s db u ''biometric_access_attempt'') \<le> 10"
    and "\<not> is_valid_match db mu mi"
  shows "\<exists>d m. can_access_face_match s db mu mi
           = Inr (Some False, db\<lparr>activity_logs := activity_logs db @
                   [new_activity_log s db (Some u) ''invalid_biometric_access'' d m]\<rparr>)"
  using assms
  by (simp add: can_access_face_match_def rate_limit_exceeded_ok insert_activity_log_ok) blast

lemma client_ip_hash_ok:
  "''digest'' \<in> set (public_functions db) \<Longrightarrow> client_ip_hash s db = Inr (ip_hash s)"
  by (simp add: client_ip_hash_def)

lemma client_ip_hash_bad:
  "''digest'' \<notin> set (public_functions db) \<Longrightarrow>
   client_ip_hash s db = Inl (Undefined_function ''digest'')"
  by (simp add: client_ip_hash_def)

lemma can_access_decided:
  assumes "auth_uid s = Some u"
    and "''biometric_access_attempt'' \<in> set (activity_type_labels db)"
    and "''digest'' \<in> set (public_functions db)"
    and "length (biometric_access_attempts s db u ''biometric_access_attempt'') \<le> 10"
    and "is_valid_match db mu mi"
  shows "\<exists>d m. can_access_face_match s db mu mi
           = Inr (sql_or (Some (has_role db (Some u) Admin)) (sql_eq (Some u) mu),
                  db\<lparr>activity_logs := activity_logs db @
                   [new_activity_log s db (Some u) ''biometric_access_attempt'' d m]\<rparr>)"
  using assms
  by (simp add: can_access_face_match_def rate_limit_exceeded_ok insert_activity_log_ok
      client_ip_hash_ok Let_def)
     blast

text \<open>Without \<^verbatim>\<open>digest\<close> in schema \<^verbatim>\<open>public\<close>, the statement that logs an
  attempt and grants or denies by ownership raises, whatever the enum holds.\<close>

lemma can_access_decided_raises:
  assumes "auth_uid s = Some u"
    and "''biometric_access_attempt'' \<in> set (activity_type_labels db)"
    and "''digest'' \<notin> set (public_functions db)"
    and "length (biometric_access_attempts s db u ''biometric_access_attempt'') \<le> 10"
    and "is_valid_match db mu mi"
  shows "can_access_face_match s db mu mi = Inl (Undefined_function ''digest'')"
  using assms
  by (simp add: can_access_face_match_def rate_limit_exceeded_ok client_ip_hash_bad Let_def)

text \<open>On the enum as the migrations create it, every call raises.\<close>

lemma can_access_face_match_raises:
  assumes "set (activity_type_labels db) \<inter> set biometric_labels = {}"
  shows "can_access_face_match s db mu mi
           = Inl (Invalid_enum_input
                (case auth_uid s of None \<Rightarrow> ''unauthorized_biometric_access''
                 | Some u \<Rightarrow> ''biometric_access_attempt''))"
proof -
  from assms have "''unauthorized_biometric_access'' \<notin> set (activity_type_labels db)"
    and "''biometric_access_attempt'' \<notin> set (activity_type_labels db)"
    by (auto simp: biometric_labels_def)
  then show ?thesis
    by (simp add: can_access_face_match_def rate_limit_exceeded_bad insert_activity_log_bad
        split: option.splits)
qed

lemma migrated_enum_lacks_labels: "set activity_type_enum \<inter> set biometric_labels = {}"
  by (simp add: activity_type_enum_def biometric_labels_def)


lemma can_access_face_match_calls_raise:
  assumes "set (activity_type_labels db) \<inter> set biometric_labels = {}"
  shows "can_access_face_match_calls ss db mu mi
           = (map (\<lambda>s. Inl (Invalid_enum_input
                (case auth_uid s of None \<Rightarrow> ''unauthorized_biometric_access''
                 | Some u \<Rightarrow> ''biometric_access_attempt''))) ss, db)"
  by (induction ss) (simp_all add: can_access_face_match_raises [OF assms])

text \<open>
  What one call does in a database whose enum has the four labels and whose schema
  \<^verbatim>\<open>public\<close> has a function \<^verbatim>\<open>digest\<close> (the migrations build neither): it
  returns true exactly for a caller with an identity who has at most ten access attempts
  logged in the last minute, for a match that exists with the owner named, when the
  caller is that owner or an administrator; and it appends exactly one row to the log.
\<close>

lemma can_access_face_match_design:
  assumes "set biometric_labels \<subseteq> set (activity_type_labels db)"
    and dg: "''digest'' \<in> set (public_functions db)"
  shows "\<exists>l. can_access_face_match s db mu mi
           = Inr (Some (\<exists>u. auth_uid s = Some u
                     \<and> length (biometric_access_attempts s db u ''biometric_access_attempt'') \<le> 10
                     \<and> is_valid_match db mu mi
                     \<and> (has_role db (Some u) Admin \<or> mu = Some u)),
                  db\<lparr>activity_logs := activity_logs db @ [l]\<rparr>)"
proof -
  from assms(1) have lab: "''unauthorized_biometric_access'' \<in> set (activity_type_labels db)"
    "''biometric_access_rate_limited'' \<in> set (activity_type_labels db)"
    "''invalid_biometric_access'' \<in> set (activity_type_labels db)"
    "''biometric_access_attempt'' \<in> set (activity_type_labels db)"
    by (auto simp: biometric_labels_def)
  show ?thesis
  proof (cases "auth_uid s")
    case None
    with can_access_unauthenticated [OF None lab(1), of mu mi] show ?thesis by auto
  next
    case (Some u)
    consider "10 < length (biometric_access_attempts s db u ''biometric_access_attempt'')"
      | "length (biometric_access_attempts s db u ''biometric_access_attempt'') \<le> 10"
        "\<not> is_valid_match db mu mi"
      | "length (biometric_access_attempts s db u ''biometric_access_attempt'') \<le> 10"
        "is_valid_match db mu mi"
      by linarith
    then show ?thesis
    proof cases
      case 1
      with can_access_rate_limited [OF Some lab(4) lab(2) 1, of mu mi] Some show ?thesis by auto
    next
      case 2
      with can_access_invalid [OF Some lab(4) lab(3) 2, of ] Some show ?thesis by auto
    next
      case 3
      from 3(2) obtain w where mu: "mu = Some w" by (auto simp: is_valid_match_iff)
      with can_access_decided [OF Some lab(4) dg 3] Some 3 show ?thesis
        by (auto simp: sql_or_owner)
    qed
  qed
qed

text \<open>
  C2. The claim is that \<open>can_access_face_match\<close> returns true exactly when the caller
  has an identity, is an administrator or the owner named, the match exists with that
  owner, and the caller has made at most ten access attempts in the last minute. On the
  database the migrations create, all four conditions hold for the viewer asking for
  their own match and for the administrator asking for it, with an empty log, and the
  call returns nothing: the rate-limit query compares the enum column with the literal
  \<^verbatim>\<open>'biometric_access_attempt'\<close>, which is no label of the enum, and raises.
\<close>

theorem owner_call_raises:
  "auth_uid (session_at (Some 3) 100) = Some 3
   \<and> is_valid_match db_migrated (Some 3) (Some 30)
   \<and> activity_logs db_migrated = []
   \<and> can_access_face_match (session_at (Some 3) 100) db_migrated (Some 3) (Some 30)
       = Inl (Invalid_enum_input ''biometric_access_attempt'')
   \<and> has_role db_migrated (Some 1) Admin
   \<and> can_access_face_match (session_at (Some 1) 100) db_migrated (Some 3) (Some 30)
       = Inl (Invalid_enum_input ''biometric_access_attempt'')"
proof -
  have "set (activity_type_labels db_migrated) \<inter> set biometric_labels = {}"
    by (simp add: db_migrated_def migrated_enum_lacks_labels)
  then have "can_access_face_match (session_at (Some u) 100) db_migrated (Some 3) (Some 30)
       = Inl (Invalid_enum_input ''biometric_access_attempt'')" for u
    by (simp add: can_access_face_match_raises session_at_def)
  moreover have "is_valid_match db_migrated (Some 3) (Some 30)"
    by (simp add: is_valid_match_iff db_migrated_def match_viewer_def)
  moreover have "has_role db_migrated (Some 1) Admin"
    by (simp add: has_role_iff db_migrated_def profile_of_def)
  ultimately show ?thesis by (simp add: session_at_def db_migrated_def)
qed

text \<open>
  C3. The claim is that every call appends exactly one row to the log. On the database
  the migrations create, a call by nobody, by the owner, and by another user (twice) each
  raise on the first enum literal they meet, and the database after the four requests is
  the database before them: no row was appended.
\<close>

theorem failed_call_logs_nothing:
  "can_access_face_match_calls
     [session_at None 100, session_at (Some 3) 101, session_at (Some 2) 102, session_at (Some 2) 103]
     db_migrated (Some 3) (Some 30)
     = ([Inl (Invalid_enum_input ''unauthorized_biometric_access''),
         Inl (Invalid_enum_input ''biometric_access_attempt''),
         Inl (Invalid_enum_input ''biometric_access_attempt''),
         Inl (Invalid_enum_input ''biometric_access_attempt'')],
        db_migrated)"
proof -
  have "set (activity_type_labels db_migrated) \<inter> set biometric_labels = {}"
    by (simp add: db_migrated_def migrated_enum_lacks_labels)
  then have "can_access_face_match (session_at v t) db_migrated (Some 3) (Some 30)
       = Inl (Invalid_enum_input
                (case v of None \<Rightarrow> ''unauthorized_biometric_access''
                 | Some u \<Rightarrow> ''biometric_access_attempt''))" for v t
    by (simp add: can_access_face_match_raises session_at_def)
  then show ?thesis by simp
qed

text \<open>
  C4. The claim is that the eleventh call of an owner within thirty seconds returns false
  and appends a row that records the rate-limit denial. On the database the migrations
  create, the viewer asks for their own match eleven times, three seconds apart: every
  call, the eleventh too, raises at the rate-limit query, whose literal
  \<^verbatim>\<open>'biometric_access_attempt'\<close> is no label of the enum. No call returns false and
  the database after the eleven requests is the database before them: no row records a
  denial.
\<close>

theorem eleven_calls_raise:
  "auth_uid (session_at (Some 3) 100) = Some 3
   \<and> is_valid_match db_migrated (Some 3) (Some 30)
   \<and> activity_logs db_migrated = []
   \<and> can_access_face_match_calls
        (map (\<lambda>k. session_at (Some 3) (100 + 3 * int k)) [0..<11])
        db_migrated (Some 3) (Some 30)
       = (replicate 11 (Inl (Invalid_enum_input ''biometric_access_attempt'')), db_migrated)"
proof -
  have lab: "set (activity_type_labels db_migrated) \<inter> set biometric_labels = {}"
    by (simp add: db_migrated_def migrated_enum_lacks_labels)
  have "is_valid_match db_migrated (Some 3) (Some 30)"
    by (simp add: is_valid_match_iff db_migrated_def match_viewer_def)
  moreover have "can_access_face_match_calls
        (map (\<lambda>k. session_at (Some 3) (100 + 3 * int k)) [0..<11])
        db_migrated (Some 3) (Some 30)
       = (replicate 11 (Inl (Invalid_enum_input ''biometric_access_attempt'')), db_migrated)"
    by (simp add: can_access_face_match_calls_raise [OF lab] session_at_def o_def
        map_replicate_const)
  ultimately show ?thesis by (simp add: session_at_def db_migrated_def)
qed

section \<open>A caller with no identity\<close>

lemma get_user_role_absent: "get_user_role db None = None"
  by (simp add: get_user_role_def sql_eq_true_iff)

lemma get_user_role_no_profile:
  assumes "\<forall>p \<in> set (profiles db). p_user_id p \<noteq> u"
  shows "get_user_role db (Some u) = None"
proof -
  from assms have "filter (\<lambda>p. is_true (sql_eq (Some (p_user_id p)) (Some u))) (profiles db) = []"
    by (auto simp: filter_empty_conv sql_eq_true_iff)
  then show ?thesis by (simp add: get_user_role_def)
qed

lemma select_events_anonymous:
  "auth_uid s = None \<Longrightarrow>
   select_events s db = filter (\<lambda>e. e_visibility e = Some Public) (events db)"
  by (simp add: select_events_def events_select_policy_iff)

lemma get_user_face_matches_where_own:
  "get_user_face_matches_where s db None fms
     = Inr (filter (\<lambda>fm. auth_uid s = Some (fm_user_id fm)) fms, db)"
  by (induction fms) (auto simp: sql_eq_true_iff)

lemma get_user_face_matches_anonymous:
  "auth_uid s = None \<Longrightarrow> get_user_face_matches s db None = Inr ([], db)"
  by (simp add: get_user_face_matches_def get_user_face_matches_where_own)

lemma get_user_face_matches_raises:
  assumes "set (activity_type_labels db) \<inter> set biometric_labels = {}"
    and "face_matches db \<noteq> []" and "auth_uid s = None"
  shows "get_user_face_matches s db (Some t)
           = Inl (Invalid_enum_input ''unauthorized_biometric_access'')"
proof -
  from assms(2) obtain fm fms where "face_matches db = fm # fms" by (cases "face_matches db") auto
  then show ?thesis
    by (simp add: get_user_face_matches_def can_access_face_match_raises [OF assms(1)] assms(3))
qed

text \<open>
  C8. The claim is that for a caller with no identity every operation gives a denial
  value and none raises: no role, false, the empty list. The role functions do so
  (\<open>get_user_role\<close> gives NULL, \<open>has_role\<close> and \<open>is_admin_or_editor\<close> false). On the
  database the migrations create, \<open>can_access_face_match\<close> does not return false for
  such a caller: its first statement inserts a log row with the literal
  \<^verbatim>\<open>'unauthorized_biometric_access'\<close>, which is no label of the enum, and raises. The
  listing \<open>get_user_face_matches\<close> with a target raises with it, for it calls the
  check on the first row it meets.
\<close>

theorem anonymous_call_raises:
  "auth_uid (session_at None 100) = None
   \<and> get_user_role db_migrated (auth_uid (session_at None 100)) = None
   \<and> \<not> has_role db_migrated (auth_uid (session_at None 100)) Admin
   \<and> \<not> is_admin_or_editor db_migrated (auth_uid (session_at None 100))
   \<and> can_access_face_match (session_at None 100) db_migrated (Some 3) (Some 30)
       = Inl (Invalid_enum_input ''unauthorized_biometric_access'')
   \<and> get_user_face_matches (session_at None 100) db_migrated (Some 3)
       = Inl (Invalid_enum_input ''unauthorized_biometric_access'')"
proof -
  have lab: "set (activity_type_labels db_migrated) \<inter> set biometric_labels = {}"
    by (simp add: db_migrated_def migrated_enum_lacks_labels)
  have a: "auth_uid (session_at None 100) = None" by (simp add: session_at_def)
  have ne: "face_matches db_migrated \<noteq> []" by (simp add: db_migrated_def)
  have "can_access_face_match (session_at None 100) db_migrated (Some 3) (Some 30)
       = Inl (Invalid_enum_input ''unauthorized_biometric_access'')"
    by (simp add: can_access_face_match_raises [OF lab] a)
  moreover note get_user_face_matches_raises [OF lab ne a, of 3]
  ultimately show ?thesis
    by (simp add: a get_user_role_absent has_role_iff is_admin_or_editor_iff)
qed

end
